theory Spec2Isabelle
  imports Complex_Main "HOL-Library.Multiset" "HOL-Library.Sublist"
begin

section \<open>Strings as Python has them\<close>

text \<open>
  Python strings are modelled as \<open>string\<close> (a list of characters). The helpers below are
  the string operations the processors call: \<open>" ".join(parts)\<close>, \<open>str(i)\<close> inside an
  f-string, \<open>s.strip()\<close>, \<open>s.lower()\<close>, \<open>sub in s\<close>, \<open>s.find(sub)\<close> and a slice
  \<open>s[k:]\<close> with a possibly negative \<open>k\<close>.
\<close>

fun join_space :: "string list \<Rightarrow> string" where
  "join_space [] = []"
| "join_space [x] = x"
| "join_space (x # y # ys) = x @ '' '' @ join_space (y # ys)"

definition digit_char :: "nat \<Rightarrow> char" where
  "digit_char d = ''0123456789'' ! (d mod 10)"

fun str_nat :: "nat \<Rightarrow> string" where
  "str_nat n = (if n < 10 then [digit_char n] else str_nat (n div 10) @ [digit_char (n mod 10)])"

declare str_nat.simps [simp del]

text \<open>
  A character is a code point below 256, so a string is a Python \<open>str\<close> over Latin-1.
  \<open>str.isspace\<close> holds there for the tab, line feed, vertical tab, form feed and
  carriage return (9 to 13), the four separators 0x1c to 0x1f, the space, the next
  line control U+0085 and the no-break space U+00A0; \<open>strip\<close> and \<open>split\<close> without
  argument remove exactly these.
\<close>

definition isspace :: "char \<Rightarrow> bool" where
  "isspace c = (of_char c \<in> {9, 10, 11, 12, 13, 28, 29, 30, 31, 32, 133, 160 :: nat})"

definition lstrip :: "string \<Rightarrow> string" where
  "lstrip s = dropWhile isspace s"

definition rstrip :: "string \<Rightarrow> string" where
  "rstrip s = rev (dropWhile isspace (rev s))"

definition strip :: "string \<Rightarrow> string" where
  "strip s = lstrip (rstrip s)"

text \<open>\<open>s.lower()\<close> on ASCII letters.\<close>

definition lower_char :: "char \<Rightarrow> char" where
  "lower_char c =
     (case map_of (zip ''ABCDEFGHIJKLMNOPQRSTUVWXYZ'' ''abcdefghijklmnopqrstuvwxyz'') c of
        Some l \<Rightarrow> l
      | None \<Rightarrow> c)"

definition lower :: "string \<Rightarrow> string" where
  "lower s = map lower_char s"

text \<open>\<open>sub in s\<close>: \<open>sub\<close> occurs in \<open>s\<close> as a contiguous substring.\<close>

fun contains :: "string \<Rightarrow> string \<Rightarrow> bool" where
  "contains [] sub = (sub = [])"
| "contains (c # cs) sub = (prefix sub (c # cs) \<or> contains cs sub)"

text \<open>\<open>s.find(sub)\<close>: the least index at which \<open>sub\<close> starts in \<open>s\<close>, or \<open>-1\<close>.\<close>

fun find_from :: "string \<Rightarrow> string \<Rightarrow> int \<Rightarrow> int" where
  "find_from [] sub k = (if sub = [] then k else - 1)"
| "find_from (c # cs) sub k = (if prefix sub (c # cs) then k else find_from cs sub (k + 1))"

definition find_str :: "string \<Rightarrow> string \<Rightarrow> int" where
  "find_str s sub = find_from s sub 0"

text \<open>
  \<open>s[k:]\<close>: a negative \<open>k\<close> counts from the end and is clipped at the start of the
  string; \<open>s[-0:]\<close> is \<open>s[0:]\<close>, the whole string.
\<close>

definition slice_from :: "int \<Rightarrow> 'a list \<Rightarrow> 'a list" where
  "slice_from k s =
     (if k < 0 then drop (nat (max 0 (int (length s) + k))) s else drop (nat k) s)"

text \<open>\<open>s[:k]\<close>: a negative \<open>k\<close> drops the last \<open>-k\<close> elements.\<close>

definition slice_to :: "int \<Rightarrow> 'a list \<Rightarrow> 'a list" where
  "slice_to k s =
     (if k < 0 then take (nat (max 0 (int (length s) + k))) s else take (nat k) s)"

section \<open>The similarity consolidator of advanced-document-processor.py\<close>

text \<open>
  A chunk of \<open>advanced-document-processor.py\<close> is a dictionary
  \<open>{chunk_id, document_id, content, metadata}\<close> whose \<open>metadata\<close> is again a dictionary;
  the key \<open>merged_from\<close> is present only on merged chunks, which is the \<open>option\<close> below.
  The field names carry the prefix \<open>c_\<close> (chunk) or \<open>m_\<close> (metadata) to keep them apart
  from the fields of the dataclass of \<open>advanced_document_processor.py\<close>.
\<close>

record entity =
  ent_text :: string
  ent_label :: string
  ent_start :: nat
  ent_end :: nat

record chunk_meta =
  m_chunk_index :: nat
  m_start_char :: int
  m_end_char :: int
  m_word_count :: nat
  m_sentence_count :: nat
  m_paragraph_count :: nat
  m_keywords :: "string list"
  m_entities :: "entity list"
  m_semantic_embedding :: "real list option"
  m_chunk_type :: string
  m_confidence_score :: real
  m_merged_from :: "string list option"

record chunk_dict =
  c_chunk_id :: string
  c_document_id :: string
  c_content :: string
  c_metadata :: chunk_meta

definition similarity_threshold :: real where
  "similarity_threshold = 0.8"

text \<open>
  The inner loop \<open>for j in range(i + 1, len(chunks))\<close> of
  \<open>_optimize_chunks_semantically\<close>. \<open>sim i j\<close> is \<open>similarity_matrix[i][j]\<close>, the
  matrix that scikit-learn's \<open>cosine_similarity\<close> returned for the chunk embeddings.
  The state is the list \<open>similar_chunks\<close> and the set \<open>used_indices\<close>.
\<close>

fun scan_similar ::
  "(nat \<Rightarrow> nat \<Rightarrow> real) \<Rightarrow> nat \<Rightarrow> nat list \<Rightarrow> nat list \<times> nat set \<Rightarrow> nat list \<times> nat set" where
  "scan_similar sim i [] (similar, used) = (similar, used)"
| "scan_similar sim i (j # js) (similar, used) =
     (if j \<notin> used \<and> sim i j > similarity_threshold
      then scan_similar sim i js (similar @ [j], insert j used)
      else scan_similar sim i js (similar, used))"

text \<open>The body of \<open>if len(similar_chunks) > 1\<close>: the merged chunk of a group.\<close>

definition optimized_chunk :: "chunk_dict list \<Rightarrow> nat \<Rightarrow> nat list \<Rightarrow> chunk_dict" where
  "optimized_chunk chunks i similar_chunks =
     (let merged_content = join_space (map (\<lambda>idx. c_content (chunks ! idx)) similar_chunks);
          merged_metadata = (c_metadata (chunks ! hd similar_chunks))
            \<lparr>m_merged_from := Some (map (\<lambda>idx. c_chunk_id (chunks ! idx)) similar_chunks)\<rparr>
      in \<lparr>c_chunk_id = c_document_id (chunks ! hd similar_chunks) @ ''_merged_'' @ str_nat i,
          c_document_id = c_document_id (chunks ! hd similar_chunks),
          c_content = merged_content,
          c_metadata = merged_metadata\<rparr>)"

text \<open>
  The outer loop \<open>for i, chunk in enumerate(chunks)\<close>, over the indices still to visit;
  the result is the list \<open>optimized_chunks\<close> in the order of its \<open>append\<close>s.
\<close>

fun optimize_loop ::
  "(nat \<Rightarrow> nat \<Rightarrow> real) \<Rightarrow> chunk_dict list \<Rightarrow> nat set \<Rightarrow> nat list \<Rightarrow> chunk_dict list" where
  "optimize_loop sim chunks used [] = []"
| "optimize_loop sim chunks used (i # is) =
     (if i \<in> used then optimize_loop sim chunks used is
      else
        (case scan_similar sim i [i + 1 ..< length chunks] ([i], used) of
          (similar_chunks, used') \<Rightarrow>
            (if length similar_chunks > 1
             then optimized_chunk chunks i similar_chunks
             else chunks ! i) # optimize_loop sim chunks used' is))"

definition optimize_chunks_semantically ::
  "(nat \<Rightarrow> nat \<Rightarrow> real) \<Rightarrow> chunk_dict list \<Rightarrow> chunk_dict list" where
  "optimize_chunks_semantically sim chunks =
     (if length chunks \<le> 1 then chunks
      else optimize_loop sim chunks {} [0 ..< length chunks])"

text \<open>
  The index groups the anchor scan forms: the same two loops, keeping the list
  \<open>similar_chunks\<close> of every anchor instead of the chunk built from it.
\<close>

fun anchor_groups ::
  "(nat \<Rightarrow> nat \<Rightarrow> real) \<Rightarrow> nat \<Rightarrow> nat set \<Rightarrow> nat list \<Rightarrow> nat list list" where
  "anchor_groups sim n used [] = []"
| "anchor_groups sim n used (i # is) =
     (if i \<in> used then anchor_groups sim n used is
      else
        (case scan_similar sim i [i + 1 ..< n] ([i], used) of
          (similar_chunks, used') \<Rightarrow> similar_chunks # anchor_groups sim n used' is))"

text \<open>
  What one anchor collects: the indices after \<open>i\<close> that are not yet used and whose
  similarity to \<open>i\<close> is above the threshold, in index order.
\<close>

definition joins :: "(nat \<Rightarrow> nat \<Rightarrow> real) \<Rightarrow> nat \<Rightarrow> nat set \<Rightarrow> nat \<Rightarrow> nat list" where
  "joins sim n used i = filter (\<lambda>j. j \<notin> used \<and> sim i j > similarity_threshold) [Suc i ..< n]"

text \<open>The chunk the loop appends for a group: merged, or the anchor itself.\<close>

definition group_chunk :: "chunk_dict list \<Rightarrow> nat list \<Rightarrow> chunk_dict" where
  "group_chunk chunks g = (if length g > 1 then optimized_chunk chunks (hd g) g else chunks ! hd g)"

text \<open>
  The source chunks an output chunk stands for: its \<open>merged_from\<close> list, or itself when
  it was passed through.
\<close>

definition source_ids :: "chunk_dict \<Rightarrow> string list" where
  "source_ids c = (case m_merged_from (c_metadata c) of Some ids \<Rightarrow> ids | None \<Rightarrow> [c_chunk_id c])"

section \<open>The chunk merger of advanced_document_processor.py\<close>

text \<open>
  The dataclass \<open>ChunkMetadata\<close> of \<open>advanced_document_processor.py\<close>. Its entities are
  the dictionaries \<open>_extract_entities\<close> builds (\<open>text\<close>, \<open>label\<close>, \<open>start\<close>, \<open>end\<close>,
  \<open>description\<close>). The dataclass has no \<open>merged_from\<close> field.
\<close>

record described_entity = entity +
  ent_description :: "string option"

record ChunkMetadata =
  chunk_id :: string
  document_id :: string
  content :: string
  start_position :: int
  end_position :: int
  chunk_index :: nat
  entities :: "described_entity list"
  "keywords" :: "string list"
  topics :: "string list"
  sentiment :: string
  importance_score :: real
  legal_terms :: "string list"
  case_references :: "string list"
  statute_references :: "string list"

text \<open>
  The exceptions the merger can meet: scikit-learn's \<open>cosine_similarity\<close> rejects an
  array it cannot use (for one, the empty array \<open>_generate_embeddings\<close> returns after a
  failure) with a \<open>ValueError\<close>, and an index outside the similarity matrix is an
  \<open>IndexError\<close>.
\<close>

datatype py_exception = ValueError | IndexError

text \<open>\<open>similarity_matrix[i][j]\<close> on a two-dimensional array.\<close>

definition matrix_get :: "real list list \<Rightarrow> nat \<Rightarrow> nat \<Rightarrow> py_exception + real" where
  "matrix_get m i j =
     (if i < length m then (if j < length (m ! i) then Inr (m ! i ! j) else Inl IndexError)
      else Inl IndexError)"

text \<open>
  The inner loop \<open>for j in range(i + 1, len(chunks))\<close> of \<open>_merge_chunks\<close>. The condition
  \<open>j not in used_indices and similarity_matrix[i][j] > 0.8\<close> reads the matrix only when
  \<open>j\<close> is unused; the loop does not change \<open>used_indices\<close>.
\<close>

fun find_similar ::
  "real list list \<Rightarrow> nat \<Rightarrow> nat set \<Rightarrow> nat list \<Rightarrow> nat list \<Rightarrow> py_exception + nat list" where
  "find_similar m i used [] similar_indices = Inr similar_indices"
| "find_similar m i used (j # js) similar_indices =
     (if j \<notin> used
      then (case matrix_get m i j of
              Inl e \<Rightarrow> Inl e
            | Inr v \<Rightarrow>
                if v > similarity_threshold
                then find_similar m i used js (similar_indices @ [j])
                else find_similar m i used js similar_indices)
      else find_similar m i used js similar_indices)"

text \<open>\<open>max\<close> over a non-empty sequence of numbers.\<close>

definition max_of :: "real list \<Rightarrow> real" where
  "max_of xs = fold max (tl xs) (hd xs)"

text \<open>
  The branch \<open>if similar_indices\<close>: the merged chunk. \<open>list_of_set xs\<close> stands for
  Python's \<open>list(set(xs))\<close>: the elements of \<open>xs\<close> without duplicates, in the iteration
  order of the interpreter's set, which the program does not fix.
\<close>

definition merged_chunk ::
  "(string list \<Rightarrow> string list) \<Rightarrow> ChunkMetadata list \<Rightarrow> ChunkMetadata \<Rightarrow> nat list \<Rightarrow> ChunkMetadata" where
  "merged_chunk list_of_set chunks chunk similar_indices =
     (let merged_content =
            foldl (\<lambda>acc idx. acc @ '' '' @ content (chunks ! idx)) (content chunk) similar_indices;
          merged_entities =
            foldl (\<lambda>acc idx. acc @ entities (chunks ! idx)) (entities chunk) similar_indices;
          merged_keywords =
            foldl (\<lambda>acc idx. acc @ keywords (chunks ! idx)) (keywords chunk) similar_indices;
          merged_legal_terms =
            foldl (\<lambda>acc idx. acc @ legal_terms (chunks ! idx)) (legal_terms chunk) similar_indices;
          merged_case_refs =
            foldl (\<lambda>acc idx. acc @ case_references (chunks ! idx)) (case_references chunk)
              similar_indices;
          merged_statute_refs =
            foldl (\<lambda>acc idx. acc @ statute_references (chunks ! idx)) (statute_references chunk)
              similar_indices
      in \<lparr>chunk_id = chunk_id chunk,
          document_id = document_id chunk,
          content = merged_content,
          start_position = start_position chunk,
          end_position = end_position (chunks ! last similar_indices),
          chunk_index = chunk_index chunk,
          entities = merged_entities,
          keywords = list_of_set merged_keywords,
          topics = topics chunk,
          sentiment = sentiment chunk,
          importance_score =
            max (importance_score chunk)
              (max_of (map (\<lambda>idx. importance_score (chunks ! idx)) similar_indices)),
          legal_terms = list_of_set merged_legal_terms,
          case_references = list_of_set merged_case_refs,
          statute_references = list_of_set merged_statute_refs\<rparr>)"

text \<open>
  The outer loop \<open>for i, chunk in enumerate(chunks)\<close>. An exception anywhere leaves the
  loop at once.
\<close>

fun merge_loop ::
  "(string list \<Rightarrow> string list) \<Rightarrow> real list list \<Rightarrow> ChunkMetadata list \<Rightarrow> nat set \<Rightarrow> nat list
     \<Rightarrow> py_exception + ChunkMetadata list" where
  "merge_loop list_of_set m chunks used [] = Inr []"
| "merge_loop list_of_set m chunks used (i # is) =
     (if i \<in> used then merge_loop list_of_set m chunks used is
      else
        (case find_similar m i used [i + 1 ..< length chunks] [] of
          Inl e \<Rightarrow> Inl e
        | Inr similar_indices \<Rightarrow>
            (let out = (if similar_indices \<noteq> []
                        then merged_chunk list_of_set chunks (chunks ! i) similar_indices
                        else chunks ! i);
                 used' = insert i (used \<union> set similar_indices)
             in case merge_loop list_of_set m chunks used' is of
                  Inl e \<Rightarrow> Inl e
                | Inr rest \<Rightarrow> Inr (out # rest))))"

text \<open>
  The body of the \<open>try\<close> of \<open>_merge_chunks\<close>. \<open>cosine_similarity\<close> is the library
  function: it returns the matrix or raises.
\<close>

definition merge_chunks_try ::
  "('emb \<Rightarrow> py_exception + real list list) \<Rightarrow> (string list \<Rightarrow> string list)
     \<Rightarrow> ChunkMetadata list \<Rightarrow> 'emb \<Rightarrow> py_exception + ChunkMetadata list" where
  "merge_chunks_try cosine_similarity list_of_set chunks embeddings =
     (if length chunks \<le> 1 then Inr chunks
      else
        (case cosine_similarity embeddings of
          Inl e \<Rightarrow> Inl e
        | Inr similarity_matrix \<Rightarrow>
            merge_loop list_of_set similarity_matrix chunks {} [0 ..< length chunks]))"

text \<open>\<open>_merge_chunks\<close>: the \<open>try\<close> with its \<open>except Exception: return chunks\<close>.\<close>

definition merge_chunks ::
  "('emb \<Rightarrow> py_exception + real list list) \<Rightarrow> (string list \<Rightarrow> string list)
     \<Rightarrow> ChunkMetadata list \<Rightarrow> 'emb \<Rightarrow> ChunkMetadata list" where
  "merge_chunks cosine_similarity list_of_set chunks embeddings =
     (case merge_chunks_try cosine_similarity list_of_set chunks embeddings of
        Inl e \<Rightarrow> chunks
      | Inr merged_chunks \<Rightarrow> merged_chunks)"

text \<open>The chunk \<open>_merge_chunks\<close> appends for a group of indices (anchor first).\<close>

definition merged_group_chunk ::
  "(string list \<Rightarrow> string list) \<Rightarrow> ChunkMetadata list \<Rightarrow> nat list \<Rightarrow> ChunkMetadata" where
  "merged_group_chunk list_of_set chunks g =
     (if tl g \<noteq> [] then merged_chunk list_of_set chunks (chunks ! hd g) (tl g) else chunks ! hd g)"

text \<open>
  What is asked of \<open>list(set(xs))\<close>: it lists the elements of \<open>xs\<close>, each once.
\<close>

definition set_order :: "(string list \<Rightarrow> string list) \<Rightarrow> bool" where
  "set_order list_of_set = (\<forall>xs. distinct (list_of_set xs) \<and> set (list_of_set xs) = set xs)"

text \<open>The matrix has an entry for every pair of chunk indices.\<close>

definition covers :: "real list list \<Rightarrow> nat \<Rightarrow> bool" where
  "covers m n = (n \<le> length m \<and> list_all (\<lambda>row. n \<le> length row) (take n m))"

section \<open>Sample chunks\<close>

text \<open>Chunks with the given id, content and keywords, used to run the functions.\<close>

definition sample_dict :: "string \<Rightarrow> string \<Rightarrow> string list \<Rightarrow> chunk_dict" where
  "sample_dict cid text kws =
     \<lparr>c_chunk_id = cid, c_document_id = ''doc'', c_content = text,
      c_metadata = \<lparr>m_chunk_index = 0, m_start_char = 0, m_end_char = int (length text),
        m_word_count = 1, m_sentence_count = 1, m_paragraph_count = 1, m_keywords = kws,
        m_entities = [], m_semantic_embedding = Some [1], m_chunk_type = ''text'',
        m_confidence_score = 1, m_merged_from = None\<rparr>\<rparr>"

definition sample_chunk :: "string \<Rightarrow> string \<Rightarrow> string list \<Rightarrow> real \<Rightarrow> ChunkMetadata" where
  "sample_chunk cid text kws score =
     \<lparr>chunk_id = cid, document_id = ''doc'', content = text, start_position = 0,
      end_position = int (length text), chunk_index = 0, entities = [], keywords = kws,
      topics = [], sentiment = ''neutral'', importance_score = score, legal_terms = [],
      case_references = [], statute_references = []\<rparr>"

section \<open>The query matcher of advanced-document-processor.py\<close>

text \<open>
  \<open>chunk['metadata'].get('semantic_embedding')\<close> as a condition: the key is there and
  its list is not empty.
\<close>

definition has_embedding :: "chunk_dict \<Rightarrow> bool" where
  "has_embedding chunk =
     (case m_semantic_embedding (c_metadata chunk) of None \<Rightarrow> False | Some v \<Rightarrow> v \<noteq> [])"

definition embedding_of :: "chunk_dict \<Rightarrow> real list" where
  "embedding_of chunk =
     (case m_semantic_embedding (c_metadata chunk) of None \<Rightarrow> [] | Some v \<Rightarrow> v)"

text \<open>
  \<open>search_similar_chunks\<close>. \<open>encode\<close> is the sentence model and \<open>cosine u v\<close> is
  \<open>cosine_similarity([u], [v])[0][0]\<close>. \<open>similarities.sort(key=..., reverse=True)\<close> is
  Python's stable sort, descending by the key: equal keys keep their order, which is
  \<open>sort_key\<close> on the negated key. \<open>top_k\<close> is any integer; the slice
  \<open>similarities[:top_k]\<close> is \<open>slice_to\<close>.
\<close>

definition search_similar_chunks ::
  "(string \<Rightarrow> real list) \<Rightarrow> (real list \<Rightarrow> real list \<Rightarrow> real) \<Rightarrow> string \<Rightarrow> chunk_dict list \<Rightarrow> int
     \<Rightarrow> chunk_dict list" where
  "search_similar_chunks encode cosine query chunks top_k =
     (if chunks = [] then []
      else
        (let query_embedding = encode query;
             similarities =
               map (\<lambda>chunk. (cosine query_embedding (embedding_of chunk), chunk))
                 (filter has_embedding chunks);
             similarities = sort_key (\<lambda>x. - fst x) similarities
         in map snd (slice_to top_k similarities)))"

text \<open>The similarity score of a chunk for a query.\<close>

definition query_score ::
  "(string \<Rightarrow> real list) \<Rightarrow> (real list \<Rightarrow> real list \<Rightarrow> real) \<Rightarrow> string \<Rightarrow> chunk_dict \<Rightarrow> real" where
  "query_score encode cosine query chunk = cosine (encode query) (embedding_of chunk)"

text \<open>A sample chunk with a given embedding entry.\<close>

definition sample_embedded :: "string \<Rightarrow> real list option \<Rightarrow> chunk_dict" where
  "sample_embedded cid emb =
     (sample_dict cid ''a'' [])\<lparr>c_metadata :=
        (c_metadata (sample_dict cid ''a'' []))\<lparr>m_semantic_embedding := emb\<rparr>\<rparr>"

section \<open>Sentiment of advanced_document_processor.py\<close>

definition positive_words :: "string list" where
  "positive_words = [''good'', ''favorable'', ''positive'', ''beneficial'', ''advantageous'']"

definition negative_words :: "string list" where
  "negative_words = [''bad'', ''negative'', ''harmful'', ''detrimental'', ''adverse'']"

text \<open>
  \<open>sum(1 for word in words if word in text.lower())\<close>: the number of words of the list
  that occur somewhere in the lower-cased text.
\<close>

definition words_present :: "string list \<Rightarrow> string \<Rightarrow> nat" where
  "words_present words text = length (filter (\<lambda>word. contains (lower text) word) words)"

text \<open>
  \<open>_analyze_sentiment\<close>. The call \<open>self.nlp(text)\<close> is spaCy's pipeline; its result is
  not used, but when it raises, the \<open>except\<close> returns \<open>'neutral'\<close>.
\<close>

definition analyze_sentiment :: "(string \<Rightarrow> py_exception + 'doc) \<Rightarrow> string \<Rightarrow> string" where
  "analyze_sentiment nlp text =
     (case nlp text of
        Inl e \<Rightarrow> ''neutral''
      | Inr doc \<Rightarrow>
          (let pos_count = words_present positive_words text;
               neg_count = words_present negative_words text
           in if pos_count > neg_count then ''positive''
              else if neg_count > pos_count then ''negative''
              else ''neutral''))"

text \<open>
  The count in the words of the specification, "counting occurrences of a small
  positive-word list vs. negative-word list in lower-cased content": the number of
  places of the lower-cased text at which a word of the list starts.
\<close>

fun occurrences :: "string \<Rightarrow> string \<Rightarrow> nat" where
  "occurrences [] sub = (if sub = [] then 1 else 0)"
| "occurrences (c # cs) sub = (if prefix sub (c # cs) then 1 else 0) + occurrences cs sub"

definition spec_occurrence_count :: "string list \<Rightarrow> string \<Rightarrow> nat" where
  "spec_occurrence_count words text = sum_list (map (occurrences (lower text)) words)"

section \<open>The chunk assembler of python-document-processor.py\<close>

text \<open>
  A chunk of \<open>DocumentChunker.create_chunks\<close> is the dictionary
  \<open>{chunkText, startPos, endPos, tokenCount, metadata}\<close>.
\<close>

record py_chunk_meta =
  chunkIndex :: nat
  isHeader :: bool
  isFooter :: bool
  isTable :: bool
  isList :: bool
  confidence :: real
  language :: string

record py_chunk =
  chunkText :: string
  startPos :: int
  endPos :: int
  tokenCount :: nat
  metadata :: py_chunk_meta

text \<open>\<open>len(s.split())\<close>: the number of maximal runs of characters that are not whitespace.\<close>

fun count_words :: "bool \<Rightarrow> string \<Rightarrow> nat" where
  "count_words after_space [] = 0"
| "count_words after_space (c # cs) =
     (if \<not> isspace c \<and> after_space then 1 else 0) + count_words (isspace c) cs"

definition token_count :: "string \<Rightarrow> nat" where
  "token_count s = count_words True s"

text \<open>The dictionary built from the buffer, at a split and after the loop.\<close>

definition make_chunk :: "string \<Rightarrow> int \<Rightarrow> nat \<Rightarrow> py_chunk" where
  "make_chunk current_chunk start_pos idx =
     \<lparr>chunkText = strip current_chunk,
      startPos = start_pos,
      endPos = start_pos + int (length current_chunk),
      tokenCount = token_count current_chunk,
      metadata = \<lparr>chunkIndex = idx, isHeader = False, isFooter = False,
        isTable = False, isList = False, confidence = 1, language = ''en''\<rparr>\<rparr>"

text \<open>The variables of the loop of \<open>create_chunks\<close>.\<close>

record chunker_state =
  cs_chunks :: "py_chunk list"
  cs_current_chunk :: string
  cs_chunk_index :: nat
  cs_start_pos :: int

text \<open>
  \<open>current_chunk[-self.overlap_size:] if len(current_chunk) > self.overlap_size else
  current_chunk\<close>, for any integer \<open>overlap_size\<close>.
\<close>

definition overlap_text_of :: "int \<Rightarrow> string \<Rightarrow> string" where
  "overlap_text_of overlap_size current_chunk =
     (if int (length current_chunk) > overlap_size
      then slice_from (- overlap_size) current_chunk
      else current_chunk)"

text \<open>One pass of the body of \<open>for sentence in sentences\<close>.\<close>

definition chunk_step :: "int \<Rightarrow> int \<Rightarrow> chunker_state \<Rightarrow> string \<Rightarrow> chunker_state" where
  "chunk_step max_chunk_size overlap_size st sentence =
     (if strip sentence = [] then st
      else if int (length (cs_current_chunk st)) + int (length sentence) > max_chunk_size
              \<and> cs_current_chunk st \<noteq> []
      then
        (let chunk = make_chunk (cs_current_chunk st) (cs_start_pos st) (cs_chunk_index st);
             overlap_text = overlap_text_of overlap_size (cs_current_chunk st);
             current_chunk = overlap_text @ '' '' @ sentence
         in \<lparr>cs_chunks = cs_chunks st @ [chunk],
             cs_current_chunk = current_chunk,
             cs_chunk_index = cs_chunk_index st + 1,
             cs_start_pos = cs_start_pos st + int (length current_chunk)
               - int (length overlap_text) - int (length sentence)\<rparr>)
      else
        st\<lparr>cs_current_chunk :=
             (if cs_current_chunk st \<noteq> [] then cs_current_chunk st @ '' '' @ sentence
              else sentence)\<rparr>)"

definition chunker_init :: chunker_state where
  "chunker_init = \<lparr>cs_chunks = [], cs_current_chunk = [], cs_chunk_index = 0, cs_start_pos = 0\<rparr>"

text \<open>The statement after the loop: the last buffer, when it is not blank.\<close>

definition chunker_final :: "chunker_state \<Rightarrow> py_chunk list" where
  "chunker_final st =
     (if strip (cs_current_chunk st) \<noteq> []
      then cs_chunks st @ [make_chunk (cs_current_chunk st) (cs_start_pos st) (cs_chunk_index st)]
      else cs_chunks st)"

text \<open>
  \<open>create_chunks\<close>, from the list \<open>sentences\<close> on: the list is what
  \<open>re.split(r'(?<=[.!?])\s+', cleaned_text)\<close> returns for the preprocessed text (the
  sentence segmenter, by a regular expression here).
\<close>

definition create_chunks :: "int \<Rightarrow> int \<Rightarrow> string list \<Rightarrow> py_chunk list" where
  "create_chunks max_chunk_size overlap_size sentences =
     chunker_final (foldl (chunk_step max_chunk_size overlap_size) chunker_init sentences)"

text \<open>The last \<open>n\<close> characters of a string, all of it when it is shorter.\<close>

definition trailing :: "nat \<Rightarrow> 'a list \<Rightarrow> 'a list" where
  "trailing n s = drop (length s - n) s"

section \<open>The chunk assembler of advanced_document_processor.py\<close>

text \<open>A fresh \<open>ChunkMetadata\<close>, as both branches of \<open>_create_intelligent_chunks\<close> build it.\<close>

definition new_chunk :: "string \<Rightarrow> string \<Rightarrow> int \<Rightarrow> int \<Rightarrow> nat \<Rightarrow> ChunkMetadata" where
  "new_chunk did text start_pos end_pos idx =
     \<lparr>chunk_id = did @ ''_chunk_'' @ str_nat idx,
      document_id = did,
      content = text,
      start_position = start_pos,
      end_position = end_pos,
      chunk_index = idx,
      entities = [],
      keywords = [],
      topics = [],
      sentiment = [],
      importance_score = 0,
      legal_terms = [],
      case_references = [],
      statute_references = []\<rparr>"

text \<open>The variables of the loop of \<open>_create_intelligent_chunks\<close>.\<close>

record assembler_state =
  as_chunks :: "ChunkMetadata list"
  as_current_chunk :: string
  as_chunk_start :: int
  as_chunk_index :: nat

text \<open>
  One pass of the body of \<open>for i, sentence in enumerate(sentences)\<close>. At a split the
  new buffer is the sentence alone, and \<open>chunk_start\<close> is updated after
  \<open>current_chunk\<close> has become the sentence.
\<close>

definition assemble_step :: "string \<Rightarrow> assembler_state \<Rightarrow> string \<Rightarrow> assembler_state" where
  "assemble_step did st sentence =
     (if int (length (as_current_chunk st)) + int (length sentence) > 1000
          \<and> as_current_chunk st \<noteq> []
      then
        (let chunk = new_chunk did (strip (as_current_chunk st)) (as_chunk_start st)
                       (as_chunk_start st + int (length (as_current_chunk st)))
                       (as_chunk_index st);
             current_chunk = sentence
         in \<lparr>as_chunks = as_chunks st @ [chunk],
             as_current_chunk = current_chunk,
             as_chunk_start = as_chunk_start st + int (length current_chunk)
               - int (length sentence),
             as_chunk_index = as_chunk_index st + 1\<rparr>)
      else
        st\<lparr>as_current_chunk :=
             (if as_current_chunk st \<noteq> [] then as_current_chunk st @ '' '' @ sentence
              else sentence)\<rparr>)"

definition assembler_init :: assembler_state where
  "assembler_init =
     \<lparr>as_chunks = [], as_current_chunk = [], as_chunk_start = 0, as_chunk_index = 0\<rparr>"

definition assembler_final :: "string \<Rightarrow> assembler_state \<Rightarrow> ChunkMetadata list" where
  "assembler_final did st =
     (if as_current_chunk st \<noteq> []
      then as_chunks st @
        [new_chunk did (strip (as_current_chunk st)) (as_chunk_start st)
           (as_chunk_start st + int (length (as_current_chunk st))) (as_chunk_index st)]
      else as_chunks st)"

text \<open>
  \<open>_create_simple_chunks\<close>, the fallback: windows of 1000 characters every 800.
\<close>

definition create_simple_chunks :: "string \<Rightarrow> string \<Rightarrow> ChunkMetadata list" where
  "create_simple_chunks text did =
     map (\<lambda>k. new_chunk did (take 1000 (drop (800 * k) text)) (int (800 * k))
                 (min (int (800 * k) + 1000) (int (length text))) k)
       [0 ..< (length text + 799) div 800]"

text \<open>
  \<open>_create_intelligent_chunks\<close>. \<open>split_into_sentences\<close> is \<open>_split_into_sentences\<close>
  (spaCy, with NLTK behind it); when it raises, the \<open>except\<close> falls back to the simple
  chunks.
\<close>

definition create_intelligent_chunks ::
  "(string \<Rightarrow> py_exception + string list) \<Rightarrow> string \<Rightarrow> string \<Rightarrow> ChunkMetadata list" where
  "create_intelligent_chunks split_into_sentences text did =
     (case split_into_sentences text of
        Inl e \<Rightarrow> create_simple_chunks text did
      | Inr sentences \<Rightarrow> assembler_final did (foldl (assemble_step did) assembler_init sentences))"

text \<open>
  What holds of the loop variables of \<open>create_chunks\<close> between two sentences, for a
  positive overlap \<open>n\<close> and sentences without surrounding whitespace: the buffer does
  not end in whitespace; after a split, the buffer is the trailing \<open>n\<close> characters of
  the sealed buffer, a space, and what came since; and each chunk begins with the
  trailing characters of the chunk before it, leading whitespace removed.
\<close>

definition chunker_inv :: "nat \<Rightarrow> chunker_state \<Rightarrow> bool" where
  "chunker_inv n st \<longleftrightarrow>
     (cs_current_chunk st = [] \<or> \<not> isspace (last (cs_current_chunk st)))
   \<and> (cs_chunks st = [] \<or>
        (\<exists>b rest. chunkText (last (cs_chunks st)) = strip b \<and> b \<noteq> [] \<and> \<not> isspace (last b)
           \<and> cs_current_chunk st = trailing n b @ '' '' @ rest
           \<and> rest \<noteq> [] \<and> \<not> isspace (last rest)))
   \<and> (\<forall>k. Suc k < length (cs_chunks st) \<longrightarrow>
          prefix (lstrip (trailing n (chunkText (cs_chunks st ! k))))
            (chunkText (cs_chunks st ! Suc k)))"

section \<open>Chunk creation in advanced-document-processor.py\<close>

text \<open>
  What spaCy reports of a chunk text, as far as \<open>_create_intelligent_chunks\<close> reads it:
  the entities, the tokens (with part of speech, lemma and the stop-word and
  punctuation flags) and the number of sentences.
\<close>

record token =
  tok_text :: string
  tok_lemma :: string
  tok_pos :: string
  tok_is_stop :: bool
  tok_is_punct :: bool

record doc_analysis =
  doc_ents :: "entity list"
  doc_tokens :: "token list"
  doc_sents :: nat

text \<open>\<open>chunk_text.count('\n\n')\<close>: the occurrences of two line feeds, not overlapping.\<close>

fun count_blank_lines :: "string \<Rightarrow> nat" where
  "count_blank_lines (a # b # rest) =
     (if a = CHR 0x0A \<and> b = CHR 0x0A then 1 + count_blank_lines rest
      else count_blank_lines (b # rest))"
| "count_blank_lines _ = 0"

text \<open>The keyword candidates: lower-cased lemmas of the nouns that are no stop words.\<close>

definition keyword_candidates :: "token list \<Rightarrow> string list" where
  "keyword_candidates tokens =
     map (\<lambda>t. lower (tok_lemma t))
       (filter (\<lambda>t. tok_pos t \<in> {''NOUN'', ''PROPN''} \<and> \<not> tok_is_stop t \<and> \<not> tok_is_punct t
                    \<and> length (tok_text t) > 2) tokens)"

text \<open>
  The body of the loop over \<open>enumerate(basic_chunks)\<close> for one chunk text that is not
  blank. \<open>nlp\<close> is the spaCy pipeline, \<open>encode\<close> the sentence model, \<open>list_of_set\<close>
  Python's \<open>list(set(...))\<close>. The offsets come from \<open>content.find(chunk_text)\<close>.
\<close>

definition enhance_chunk ::
  "(string \<Rightarrow> doc_analysis) \<Rightarrow> (string \<Rightarrow> real list) \<Rightarrow> (string list \<Rightarrow> string list)
     \<Rightarrow> string \<Rightarrow> string \<Rightarrow> nat \<Rightarrow> string \<Rightarrow> chunk_dict" where
  "enhance_chunk nlp encode list_of_set text did i chunk_text =
     (let doc = nlp chunk_text;
          kws = take 10 (list_of_set (keyword_candidates (doc_tokens doc)));
          embedding = encode chunk_text
      in \<lparr>c_chunk_id = did @ ''_chunk_'' @ str_nat i,
          c_document_id = did,
          c_content = chunk_text,
          c_metadata =
            \<lparr>m_chunk_index = i,
             m_start_char = find_str text chunk_text,
             m_end_char = find_str text chunk_text + int (length chunk_text),
             m_word_count = token_count chunk_text,
             m_sentence_count = doc_sents doc,
             m_paragraph_count = count_blank_lines chunk_text + 1,
             m_keywords = kws,
             m_entities = doc_ents doc,
             m_semantic_embedding = Some embedding,
             m_chunk_type = ''text'',
             m_confidence_score = 1,
             m_merged_from = None\<rparr>\<rparr>)"

text \<open>Steps 1 and 2: the enhanced chunks of the texts that are not blank.\<close>

definition enhanced_chunks ::
  "(string \<Rightarrow> doc_analysis) \<Rightarrow> (string \<Rightarrow> real list) \<Rightarrow> (string list \<Rightarrow> string list)
     \<Rightarrow> string \<Rightarrow> string \<Rightarrow> string list \<Rightarrow> chunk_dict list" where
  "enhanced_chunks nlp encode list_of_set text did basic_chunks =
     map (\<lambda>(i, chunk_text). enhance_chunk nlp encode list_of_set text did i chunk_text)
       (filter (\<lambda>(i, chunk_text). strip chunk_text \<noteq> []) (enumerate 0 basic_chunks))"

text \<open>
  scikit-learn's \<open>cosine_similarity(X)\<close> on the matrix \<open>X\<close> of the embeddings: every
  row is divided by its Euclidean norm (a row of norm 0 is left as it is), and entry
  \<open>[i][j]\<close> is the product of the rows \<open>i\<close> and \<open>j\<close> so normalised; \<open>cosine_rows u v\<close>
  is \<open>cosine_similarity([u], [v])[0][0]\<close>. The numbers are reals here; the rounding
  of the floating-point computation is not modelled.
\<close>

definition dot_product :: "real list \<Rightarrow> real list \<Rightarrow> real" where
  "dot_product u v = sum_list (map2 (*) u v)"

definition row_norm :: "real list \<Rightarrow> real" where
  "row_norm u = sqrt (dot_product u u)"

definition normalize_row :: "real list \<Rightarrow> real list" where
  "normalize_row u = (if row_norm u = 0 then u else map (\<lambda>x. x / row_norm u) u)"

definition cosine_rows :: "real list \<Rightarrow> real list \<Rightarrow> real" where
  "cosine_rows u v = dot_product (normalize_row u) (normalize_row v)"



section \<open>The document results\<close>

text \<open>
  \<open>ProcessingResult\<close> of \<open>advanced-document-processor.py\<close>, without the wall-clock
  \<open>processing_time\<close>. The extraction metadata is a dictionary of strings.
\<close>

record processing_result =
  pr_document_id :: string
  pr_title :: string
  pr_content :: string
  pr_chunks :: "chunk_dict list"
  pr_metadata :: "(string \<times> string) list"
  pr_success :: bool
  pr_error_message :: "string option"

text \<open>\<open>d.get(key, default)\<close> on a dictionary held as an association list.\<close>

definition dict_get :: "('k \<times> 'v) list \<Rightarrow> 'k \<Rightarrow> 'v \<Rightarrow> 'v" where
  "dict_get d k dflt = (case map_of d k of Some v \<Rightarrow> v | None \<Rightarrow> dflt)"

text \<open>
  An exception that leaves \<open>process_document\<close>: the \<open>NameError\<close> of a global name that
  is not bound.
\<close>

datatype uncaught = NameError string

text \<open>
  \<open>process_document\<close> of \<open>advanced-document-processor.py\<close>. Its first statement,
  \<open>start_time = time.time()\<close>, stands before the \<open>try\<close>. The file binds the name \<open>time\<close>
  only by the \<open>import time\<close> under \<open>if __name__ == "__main__"\<close>: \<open>time_bound\<close> says that
  the file runs as the script. When it is imported as a module the name is not bound,
  the first statement raises \<open>NameError\<close> and no handler is around it.

  \<open>extract_content\<close> reads the file: it returns the content and its metadata, or
  raises, and then \<open>Inl\<close> holds the text of the exception. \<open>make_chunks\<close> is
  \<open>_create_intelligent_chunks\<close> with its libraries, which can raise as well.
\<close>

definition process_document_adv ::
  "bool \<Rightarrow> (string \<Rightarrow> string + string \<times> (string \<times> string) list)
     \<Rightarrow> (string \<Rightarrow> string \<Rightarrow> (string \<times> string) list \<Rightarrow> string + chunk_dict list)
     \<Rightarrow> string \<Rightarrow> string \<Rightarrow> uncaught + processing_result" where
  "process_document_adv time_bound extract_content make_chunks file_path did =
     (if \<not> time_bound then Inl (NameError ''time'')
      else Inr
       (let failed = (\<lambda>e. \<lparr>pr_document_id = did, pr_title = ''Unknown'', pr_content = [],
                            pr_chunks = [], pr_metadata = [], pr_success = False,
                            pr_error_message = Some e\<rparr>)
        in case extract_content file_path of
             Inl e \<Rightarrow> failed e
           | Inr (text, md) \<Rightarrow>
               if strip text = []
               then \<lparr>pr_document_id = did, pr_title = dict_get md ''title'' ''Unknown'',
                     pr_content = text, pr_chunks = [], pr_metadata = md, pr_success = False,
                     pr_error_message = Some ''No content extracted from document''\<rparr>
               else (case make_chunks text did md of
                       Inl e \<Rightarrow> failed e
                     | Inr chunks \<Rightarrow>
                         \<lparr>pr_document_id = did, pr_title = dict_get md ''title'' ''Unknown'',
                          pr_content = text, pr_chunks = chunks, pr_metadata = md,
                          pr_success = True, pr_error_message = None\<rparr>)))"

text \<open>
  The dictionaries of \<open>python-document-processor.py\<close>: the request \<open>input_data\<close> and the
  response, both as association lists from keys to values. A value is a string, an
  integer, a list of chunks, or a value of another Python type, of which only the
  name of the type is kept (\<open>NoneType\<close>, \<open>float\<close>, \<open>bool\<close>, \<open>dict\<close>, \<open>list\<close>).
\<close>

datatype json_value =
    JStr string
  | JInt int
  | JChunks "py_chunk list"
  | JOther string

fun type_name :: "json_value \<Rightarrow> string" where
  "type_name (JStr s) = ''str''"
| "type_name (JInt n) = ''int''"
| "type_name (JChunks cs) = ''list''"
| "type_name (JOther tn) = tn"

text \<open>
  The text of the \<open>AttributeError\<close> for \<open>v.strip\<close> on a value that is no string:
  \<open>'int' object has no attribute 'strip'\<close>.
\<close>

definition no_attribute :: "string \<Rightarrow> string \<Rightarrow> string" where
  "no_attribute tn attr =
     [CHR 0x27] @ tn @ [CHR 0x27] @ '' object has no attribute '' @ [CHR 0x27] @ attr @ [CHR 0x27]"

text \<open>The response of the \<open>except\<close> branch, for an exception of text \<open>e\<close>.\<close>

definition error_response :: "string \<Rightarrow> (string \<times> json_value) list" where
  "error_response e =
     [(''error'', JStr e), (''chunks'', JChunks []), (''word_document'', JStr []),
      (''chunk_count'', JInt 0), (''total_tokens'', JInt 0)]"

text \<open>
  \<open>process_document\<close> of \<open>python-document-processor.py\<close>. The whole body is in one
  \<open>try\<close>, and the \<open>except\<close> branch returns \<open>error_response\<close> of the text of the
  exception. \<open>input_data.get('text', '')\<close> is the value under \<open>text\<close>, or the empty
  string when the key is absent. \<open>text.strip()\<close> raises \<open>AttributeError\<close> on a value
  that is no string; on a string that strips to nothing the code raises
  \<open>ValueError("No text content provided")\<close>. \<open>process_text\<close> stands for the statements
  after this check (the advanced branch, the fallback chunker, the Word document
  and the response): it returns the response, or \<open>Inl\<close> the text of an exception that
  reaches the \<open>except\<close> branch.
\<close>

definition process_document_py ::
  "((string \<times> json_value) list \<Rightarrow> string + (string \<times> json_value) list)
     \<Rightarrow> (string \<times> json_value) list \<Rightarrow> (string \<times> json_value) list" where
  "process_document_py process_text input_data =
     (case dict_get input_data ''text'' (JStr []) of
        JStr text \<Rightarrow>
          if strip text = [] then error_response ''No text content provided''
          else (case process_text input_data of
                  Inl e \<Rightarrow> error_response e
                | Inr response \<Rightarrow> response)
      | v \<Rightarrow> error_response (no_attribute (type_name v) ''strip''))"
section \<open>Annotation in advanced_document_processor.py\<close>

text \<open>
  The libraries the annotator calls, as functions: the sentence splitter, spaCy's
  entity recogniser, the TF-IDF keyword extractor, the matches of the three regular
  expressions (\<open>match.group()\<close> of the legal terms, \<open>match.group(1)\<close> of the case and
  statute references), the spaCy call of the sentiment analysis, and Python's
  \<open>list(set(...))\<close>.
\<close>

record 'doc capabilities =
  cap_split_into_sentences :: "string \<Rightarrow> py_exception + string list"
  cap_extract_entities :: "string \<Rightarrow> described_entity list"
  cap_extract_keywords :: "string \<Rightarrow> string list"
  cap_legal_matches :: "string \<Rightarrow> string list"
  cap_case_matches :: "string \<Rightarrow> string list"
  cap_statute_matches :: "string \<Rightarrow> string list"
  cap_nlp :: "string \<Rightarrow> py_exception + 'doc"
  cap_list_of_set :: "string list \<Rightarrow> string list"

text \<open>\<open>_extract_legal_terms\<close>: \<open>list(set(legal_terms))\<close> of the matches.\<close>

definition extract_legal_terms :: "'doc capabilities \<Rightarrow> string \<Rightarrow> string list" where
  "extract_legal_terms caps text = cap_list_of_set caps (cap_legal_matches caps text)"

text \<open>
  \<open>_calculate_importance_score\<close>, with real numbers for Python's floats:
  0.1 for each legal term, 0.05 for each entity labelled PERSON, ORG, GPE or LAW,
  0.2 for each case reference, 0.15 for each statute reference, at most 1.
\<close>

definition calculate_importance_score :: "'doc capabilities \<Rightarrow> string \<Rightarrow> real" where
  "calculate_importance_score caps text =
     (let score = real (length (extract_legal_terms caps text)) * 0.1;
          score = score + 0.05 * real (length (filter
                    (\<lambda>e. ent_label e \<in> {''PERSON'', ''ORG'', ''GPE'', ''LAW''})
                    (cap_extract_entities caps text)));
          score = score + real (length (cap_case_matches caps text)) * 0.2;
          score = score + real (length (cap_statute_matches caps text)) * 0.15
      in min score 1)"

text \<open>The body of the loop \<open>for i, chunk in enumerate(chunks)\<close> of \<open>process_document\<close>.\<close>

definition annotate :: "'doc capabilities \<Rightarrow> ChunkMetadata \<Rightarrow> ChunkMetadata" where
  "annotate caps chunk =
     chunk\<lparr>entities := cap_extract_entities caps (content chunk),
           keywords := cap_extract_keywords caps (content chunk),
           legal_terms := extract_legal_terms caps (content chunk),
           case_references := cap_case_matches caps (content chunk),
           statute_references := cap_statute_matches caps (content chunk),
           importance_score := calculate_importance_score caps (content chunk),
           sentiment := analyze_sentiment (cap_nlp caps) (content chunk)\<rparr>"

text \<open>Assembly and annotation: the chunks of a document before the merge.\<close>

definition annotated_chunks :: "'doc capabilities \<Rightarrow> string \<Rightarrow> string \<Rightarrow> ChunkMetadata list" where
  "annotated_chunks caps text did =
     map (annotate caps) (create_intelligent_chunks (cap_split_into_sentences caps) text did)"

text \<open>Capabilities that find the given legal terms in every text, for running the annotator.\<close>

definition sample_caps :: "string list \<Rightarrow> (string list \<Rightarrow> string list) \<Rightarrow> unit capabilities" where
  "sample_caps terms list_of_set =
     \<lparr>cap_split_into_sentences = (\<lambda>t. Inr [t]),
      cap_extract_entities = (\<lambda>t. []),
      cap_extract_keywords = (\<lambda>t. []),
      cap_legal_matches = (\<lambda>t. terms),
      cap_case_matches = (\<lambda>t. []),
      cap_statute_matches = (\<lambda>t. []),
      cap_nlp = (\<lambda>t. Inr ()),
      cap_list_of_set = list_of_set\<rparr>"

text \<open>A spaCy result with the given nouns as tokens.\<close>

definition sample_doc :: "string list \<Rightarrow> doc_analysis" where
  "sample_doc nouns =
     \<lparr>doc_ents = [],
      doc_tokens = map (\<lambda>w. \<lparr>tok_text = w, tok_lemma = w, tok_pos = ''NOUN'',
                                tok_is_stop = False, tok_is_punct = False\<rparr>) nouns,
      doc_sents = 1\<rparr>"

section \<open>Properties of the anchor scan\<close>

lemma scan_similar_eq:
  "scan_similar sim i js (similar, used) =
     (similar @ filter (\<lambda>j. j \<notin> used \<and> sim i j > similarity_threshold) js,
      used \<union> set (filter (\<lambda>j. j \<notin> used \<and> sim i j > similarity_threshold) js))" if "distinct js"
  using that
proof (induction js arbitrary: similar used)
  case Nil
  then show ?case by simp
next
  case (Cons j js)
  have eq: "filter (\<lambda>k. k \<noteq> j \<and> k \<notin> used \<and> sim i k > similarity_threshold) js
          = filter (\<lambda>k. k \<notin> used \<and> sim i k > similarity_threshold) js"
    using Cons.prems by (intro filter_cong) auto
  from Cons.prems have d: "distinct js" by simp
  show ?case
    using Cons.IH [OF d, of "similar @ [j]" "insert j used"] Cons.IH [OF d, of similar used]
    by (auto simp: eq)
qed

lemma scan_similar_joins:
  "scan_similar sim i [Suc i ..< n] ([i], used) = (i # joins sim n used i, used \<union> set (joins sim n used i))"
  by (simp add: scan_similar_eq joins_def)

lemma anchor_groups_Cons:
  "anchor_groups sim n used (i # is) =
     (if i \<in> used then anchor_groups sim n used is
      else (i # joins sim n used i) # anchor_groups sim n (used \<union> set (joins sim n used i)) is)"
  by (simp add: scan_similar_joins)

lemma optimize_loop_Cons:
  "optimize_loop sim chunks used (i # is) =
     (if i \<in> used then optimize_loop sim chunks used is
      else (if joins sim (length chunks) used i \<noteq> []
            then optimized_chunk chunks i (i # joins sim (length chunks) used i)
            else chunks ! i)
           # optimize_loop sim chunks (used \<union> set (joins sim (length chunks) used i)) is)"
  by (simp add: scan_similar_joins)

declare anchor_groups.simps(2) [simp del] optimize_loop.simps(2) [simp del]

lemma set_joins: "set (joins sim n used i) = {j. i < j \<and> j < n \<and> j \<notin> used \<and> sim i j > similarity_threshold}"
  by (auto simp: joins_def)

lemma distinct_joins: "distinct (joins sim n used i)"
  by (simp add: joins_def)

lemma mset_anchor_groups:
  "mset (concat (anchor_groups sim n used [k ..< n])) = mset (filter (\<lambda>j. j \<notin> used) [k ..< n])"
proof (induction "n - k" arbitrary: k used)
  case 0
  then show ?case by simp
next
  case (Suc m)
  then have kn: "k < n" and m: "m = n - Suc k" by auto
  have upt: "[k ..< n] = k # [Suc k ..< n]" using kn by (simp add: upt_conv_Cons)
  show ?case
  proof (cases "k \<in> used")
    case True
    then show ?thesis using Suc.hyps(1) [OF m, of used] by (simp add: upt anchor_groups_Cons del: upt.simps)
  next
    case False
    let ?J = "joins sim n used k"
    have part: "mset (filter (\<lambda>j. j \<notin> used) [Suc k ..< n])
        = mset ?J + mset (filter (\<lambda>j. j \<notin> used \<union> set ?J) [Suc k ..< n])"
    proof -
      have "?J = filter (\<lambda>j. sim k j > similarity_threshold) (filter (\<lambda>j. j \<notin> used) [Suc k ..< n])"
        by (simp add: joins_def conj_commute)
      moreover have "filter (\<lambda>j. j \<notin> used \<union> set ?J) [Suc k ..< n]
         = filter (\<lambda>j. \<not> sim k j > similarity_threshold) (filter (\<lambda>j. j \<notin> used) [Suc k ..< n])"
        by (auto simp: set_joins intro!: filter_cong)
      ultimately show ?thesis
        by (metis mset_filter multiset_partition)
    qed
    have "mset (concat (anchor_groups sim n used [k ..< n]))
        = add_mset k (mset ?J + mset (concat (anchor_groups sim n (used \<union> set ?J) [Suc k ..< n])))"
      using False by (simp add: upt anchor_groups_Cons del: upt.simps)
    also have "\<dots> = add_mset k (mset (filter (\<lambda>j. j \<notin> used) [Suc k ..< n]))"
      by (simp only: Suc.hyps(1) [OF m, of "used \<union> set ?J"] part)
    also have "\<dots> = mset (filter (\<lambda>j. j \<notin> used) [k ..< n])"
      using False by (simp only: upt filter.simps if_True mset.simps not_False_eq_True)
    finally show ?thesis .
  qed
qed


lemma optimize_loop_groups:
  "optimize_loop sim chunks used is
     = map (group_chunk chunks) (anchor_groups sim (length chunks) used is)"
proof (induction "is" arbitrary: used)
  case Nil
  then show ?case by simp
next
  case (Cons i "is")
  show ?case
    by (simp add: optimize_loop_Cons anchor_groups_Cons Cons.IH group_chunk_def)
qed

lemma anchor_groups_bounds:
  "g \<in> set (anchor_groups sim n used [k ..< n]) \<Longrightarrow> g \<noteq> [] \<and> k \<le> hd g \<and> hd g < n"
proof (induction "n - k" arbitrary: k used)
  case 0
  then show ?case by simp
next
  case (Suc m)
  then have kn: "k < n" and m: "m = n - Suc k" by auto
  have upt: "[k ..< n] = k # [Suc k ..< n]" using kn by (simp add: upt_conv_Cons)
  from Suc.prems consider
      "g = k # joins sim n used k"
    | U where "g \<in> set (anchor_groups sim n U [Suc k ..< n])"
    by (auto simp: upt anchor_groups_Cons simp del: upt.simps split: if_splits)
  then show ?case
  proof cases
    case 1
    then show ?thesis using kn by simp
  next
    case 2
    from Suc.hyps(1) [OF m 2] show ?thesis by simp
  qed
qed

lemma anchor_groups_sorted:
  "sorted_wrt (<) (map hd (anchor_groups sim n used [k ..< n]))"
proof (induction "n - k" arbitrary: k used)
  case 0
  then show ?case by simp
next
  case (Suc m)
  then have kn: "k < n" and m: "m = n - Suc k" by auto
  have upt: "[k ..< n] = k # [Suc k ..< n]" using kn by (simp add: upt_conv_Cons)
  have later: "k < hd g" if "g \<in> set (anchor_groups sim n U [Suc k ..< n])" for g U
    using anchor_groups_bounds [OF that] by simp
  show ?case
    using Suc.hyps(1) [OF m] later
    by (auto simp: upt anchor_groups_Cons simp del: upt.simps)
qed

lemma joins_cong:
  "(\<And>j. a < j \<Longrightarrow> j < n \<Longrightarrow> (j \<in> U \<longleftrightarrow> j \<in> U')) \<Longrightarrow> joins sim n U a = joins sim n U' a"
  unfolding joins_def by (rule filter_cong) auto

lemma anchor_groups_nth:
  "p < length (anchor_groups sim n used [k ..< n]) \<Longrightarrow>
   anchor_groups sim n used [k ..< n] ! p =
     hd (anchor_groups sim n used [k ..< n] ! p) #
     joins sim n (used \<union> \<Union> (set ` set (take p (anchor_groups sim n used [k ..< n]))))
       (hd (anchor_groups sim n used [k ..< n] ! p))"
proof (induction "n - k" arbitrary: k used p)
  case 0
  then show ?case by simp
next
  case (Suc m)
  then have kn: "k < n" and m: "m = n - Suc k" by auto
  have upt: "[k ..< n] = k # [Suc k ..< n]" using kn by (simp add: upt_conv_Cons)
  show ?case
  proof (cases "k \<in> used")
    case True
    then have eq: "anchor_groups sim n used [k ..< n] = anchor_groups sim n used [Suc k ..< n]"
      by (simp add: upt anchor_groups_Cons del: upt.simps)
    show ?thesis using Suc.hyps(1) [OF m, of p used] Suc.prems unfolding eq by simp
  next
    case False
    let ?J = "joins sim n used k"
    let ?rest = "anchor_groups sim n (used \<union> set ?J) [Suc k ..< n]"
    have eq: "anchor_groups sim n used [k ..< n] = (k # ?J) # ?rest"
      using False by (simp add: upt anchor_groups_Cons del: upt.simps)
    show ?thesis
    proof (cases p)
      case 0
      then show ?thesis unfolding eq by simp
    next
      case (Suc p')
      with Suc.prems have p': "p' < length ?rest" unfolding eq by simp
      let ?a = "hd (?rest ! p')"
      have "?rest ! p' \<in> set ?rest" using p' by (rule nth_mem)
      from anchor_groups_bounds [OF this] have a: "k < ?a" by simp
      have "?rest ! p' = ?a # joins sim n ((used \<union> set ?J) \<union> \<Union> (set ` set (take p' ?rest))) ?a"
        using Suc.hyps(1) [OF m p'] .
      also have "joins sim n ((used \<union> set ?J) \<union> \<Union> (set ` set (take p' ?rest))) ?a
          = joins sim n (used \<union> \<Union> (set ` set (take p ((k # ?J) # ?rest)))) ?a"
        using a by (intro joins_cong) (auto simp: Suc)
      finally show ?thesis unfolding eq by (simp add: Suc)
    qed
  qed
qed

section \<open>The merger follows the anchor scan\<close>

lemma find_similar_Inr:
  "find_similar m i used js acc = Inr r \<Longrightarrow>
     r = acc @ filter (\<lambda>j. j \<notin> used \<and> m ! i ! j > similarity_threshold) js"
proof (induction js arbitrary: acc)
  case Nil
  then show ?case by simp
next
  case (Cons j js)
  show ?case
  proof (cases "j \<in> used")
    case True
    with Cons show ?thesis by simp
  next
    case False
    with Cons.prems obtain v where v: "matrix_get m i j = Inr v"
      by (cases "matrix_get m i j") auto
    then have vm: "v = m ! i ! j"
      by (auto simp: matrix_get_def split: if_splits)
    show ?thesis
      using Cons.prems Cons.IH [of "acc @ [j]"] Cons.IH [of acc] False v vm
      by (auto split: if_splits)
  qed
qed

lemma covers_nth: "covers m n \<Longrightarrow> i < n \<Longrightarrow> i < length m \<and> n \<le> length (m ! i)"
proof -
  assume c: "covers m n" and i: "i < n"
  then have len: "n \<le> length m" and all: "list_all (\<lambda>row. n \<le> length row) (take n m)"
    by (simp_all add: covers_def)
  from i len have "i < length (take n m)" by simp
  with all have "n \<le> length (take n m ! i)" unfolding list_all_length by blast
  with i len show ?thesis by simp
qed

lemma find_similar_covers:
  "covers m n \<Longrightarrow> i < n \<Longrightarrow> \<forall>j \<in> set js. j < n \<Longrightarrow> \<exists>r. find_similar m i used js acc = Inr r"
proof (induction js arbitrary: acc)
  case Nil
  then show ?case by simp
next
  case (Cons j js)
  from Cons.prems covers_nth [of m n i] have "i < length m" "j < length (m ! i)"
    by auto
  then have "matrix_get m i j = Inr (m ! i ! j)" by (simp add: matrix_get_def)
  with Cons show ?case by simp
qed

lemma anchor_groups_used_cong:
  "(\<And>j. k \<le> j \<Longrightarrow> j < n \<Longrightarrow> (j \<in> U \<longleftrightarrow> j \<in> U')) \<Longrightarrow>
     anchor_groups sim n U [k ..< n] = anchor_groups sim n U' [k ..< n]"
proof (induction "n - k" arbitrary: k U U')
  case 0
  then show ?case by simp
next
  case (Suc d)
  then have kn: "k < n" and d: "d = n - Suc k" by auto
  have upt: "[k ..< n] = k # [Suc k ..< n]" using kn by (simp add: upt_conv_Cons)
  have k: "k \<in> U \<longleftrightarrow> k \<in> U'" using Suc.prems [of k] kn by simp
  have J: "joins sim n U k = joins sim n U' k"
    by (rule joins_cong) (use Suc.prems in auto)
  have 1: "anchor_groups sim n U [Suc k ..< n] = anchor_groups sim n U' [Suc k ..< n]"
    by (rule Suc.hyps(1) [OF d]) (use Suc.prems in auto)
  have 2: "anchor_groups sim n (U \<union> set (joins sim n U k)) [Suc k ..< n]
         = anchor_groups sim n (U' \<union> set (joins sim n U' k)) [Suc k ..< n]"
    by (rule Suc.hyps(1) [OF d]) (use Suc.prems J in auto)
  show ?case
    using k J 1 2 by (simp add: upt anchor_groups_Cons del: upt.simps)
qed

lemma merge_loop_Inr:
  "merge_loop sl m chunks used [k ..< length chunks] = Inr out \<Longrightarrow>
     out = map (merged_group_chunk sl chunks)
             (anchor_groups (\<lambda>i j. m ! i ! j) (length chunks) used [k ..< length chunks])"
proof (induction "length chunks - k" arbitrary: k used out)
  case 0
  then show ?case by simp
next
  case (Suc d)
  let ?n = "length chunks"
  let ?sim = "\<lambda>i j. m ! i ! j"
  from Suc have kn: "k < ?n" and d: "d = ?n - Suc k" by auto
  have upt: "[k ..< ?n] = k # [Suc k ..< ?n]" using kn by (simp add: upt_conv_Cons)
  show ?case
  proof (cases "k \<in> used")
    case True
    with Suc.prems have "merge_loop sl m chunks used [Suc k ..< ?n] = Inr out"
      by (simp add: upt del: upt.simps)
    from Suc.hyps(1) [OF d this] True show ?thesis
      by (simp add: upt anchor_groups_Cons del: upt.simps)
  next
    case False
    from Suc.prems False obtain J where J: "find_similar m k used [Suc k ..< ?n] [] = Inr J"
      by (cases "find_similar m k used [Suc k ..< ?n] []") (auto simp: upt simp del: upt.simps)
    from find_similar_Inr [OF J] have Jeq: "J = joins ?sim ?n used k"
      by (simp add: joins_def)
    from Suc.prems False J obtain rest where
      rest: "merge_loop sl m chunks (insert k (used \<union> set J)) [Suc k ..< ?n] = Inr rest"
      and out: "out = (if J \<noteq> [] then merged_chunk sl chunks (chunks ! k) J else chunks ! k) # rest"
      by (cases "merge_loop sl m chunks (insert k (used \<union> set J)) [Suc k ..< ?n]")
         (auto simp: upt Let_def simp del: upt.simps)
    have "rest = map (merged_group_chunk sl chunks)
             (anchor_groups ?sim ?n (insert k (used \<union> set J)) [Suc k ..< ?n])"
      using Suc.hyps(1) [OF d rest] .
    also have "anchor_groups ?sim ?n (insert k (used \<union> set J)) [Suc k ..< ?n]
             = anchor_groups ?sim ?n (used \<union> set J) [Suc k ..< ?n]"
      by (rule anchor_groups_used_cong) auto
    finally show ?thesis
      using False out Jeq
      by (simp add: upt anchor_groups_Cons merged_group_chunk_def del: upt.simps)
  qed
qed

lemma merge_loop_covers:
  "covers m (length chunks) \<Longrightarrow> \<exists>out. merge_loop sl m chunks used [k ..< length chunks] = Inr out"
proof (induction "length chunks - k" arbitrary: k used)
  case 0
  then show ?case by simp
next
  case (Suc d)
  let ?n = "length chunks"
  from Suc have kn: "k < ?n" and d: "d = ?n - Suc k" by auto
  have upt: "[k ..< ?n] = k # [Suc k ..< ?n]" using kn by (simp add: upt_conv_Cons)
  obtain J where J: "find_similar m k used [Suc k ..< ?n] [] = Inr J"
    using find_similar_covers [OF Suc.prems kn, of "[Suc k ..< ?n]" used "[]"] by auto
  obtain rest where "merge_loop sl m chunks (insert k (used \<union> set J)) [Suc k ..< ?n] = Inr rest"
    using Suc.hyps(1) [OF d Suc.prems] by blast
  moreover obtain rest' where "merge_loop sl m chunks used [Suc k ..< ?n] = Inr rest'"
    using Suc.hyps(1) [OF d Suc.prems] by blast
  ultimately show ?case
    using J by (simp add: upt Let_def del: upt.simps)
qed

section \<open>Groups of the two consolidators\<close>

lemma optimize_groups:
  "optimize_chunks_semantically sim chunks =
     map (group_chunk chunks) (anchor_groups sim (length chunks) {} [0 ..< length chunks])"
proof (cases "length chunks \<le> 1")
  case False
  then show ?thesis by (simp add: optimize_chunks_semantically_def optimize_loop_groups)
next
  case True
  then consider "chunks = []" | c where "chunks = [c]"
    by (cases chunks) auto
  then show ?thesis
  proof cases
    case 1
    then show ?thesis by (simp add: optimize_chunks_semantically_def)
  next
    case 2
    then show ?thesis
      by (simp add: optimize_chunks_semantically_def anchor_groups_Cons joins_def group_chunk_def)
  qed
qed

lemma anchor_groups_partition:
  "mset (concat (anchor_groups sim n {} [0 ..< n])) = mset [0 ..< n]"
  using mset_anchor_groups [of sim n "{}" 0] by simp

lemma anchor_groups_members:
  assumes "g \<in> set (anchor_groups sim n {} [0 ..< n])"
  shows "g \<noteq> [] \<and> set g \<subseteq> {..< n}"
proof -
  have "set g \<subseteq> set (concat (anchor_groups sim n {} [0 ..< n]))"
    using assms by auto
  also have "\<dots> = set [0 ..< n]"
    using anchor_groups_partition [of sim n] by (metis set_mset_mset)
  finally show ?thesis using anchor_groups_bounds [OF assms] by auto
qed

lemma source_ids_group_chunk:
  assumes "\<forall>c \<in> set chunks. m_merged_from (c_metadata c) = None"
    and "g \<noteq> []" and "set g \<subseteq> {..< length chunks}"
  shows "source_ids (group_chunk chunks g) = map (\<lambda>i. c_chunk_id (chunks ! i)) g"
proof (cases "length g > 1")
  case True
  then show ?thesis by (simp add: group_chunk_def source_ids_def optimized_chunk_def)
next
  case False
  with assms(2) obtain i where g: "g = [i]" by (cases g) auto
  with assms(3) have "chunks ! i \<in> set chunks" by simp
  with assms(1) have "m_merged_from (c_metadata (chunks ! i)) = None" by blast
  then show ?thesis by (simp add: g group_chunk_def source_ids_def)
qed

lemma singleton_groups_chunks:
  "map (merged_group_chunk sl chunks) (map (\<lambda>i. [i]) [0 ..< length chunks]) = chunks"
  by (simp add: merged_group_chunk_def o_def map_nth)

lemma singleton_groups_partition:
  "mset (concat (map (\<lambda>i. [i]) [0 ..< n])) = mset [0 ..< n]"
proof -
  have "concat (map (\<lambda>i. [i]) [0 ..< n]) = [0 ..< n]"
    by (induction n) simp_all
  then show ?thesis by simp
qed

lemma singleton_groups_sorted:
  "sorted_wrt (<) (map hd (map (\<lambda>i. [i]) [0 ..< n]))"
  by (simp add: o_def)

lemma merge_chunks_groups:
  "\<exists>groups. merge_chunks csim sl chunks emb = map (merged_group_chunk sl chunks) groups
      \<and> mset (concat groups) = mset [0 ..< length chunks]
      \<and> sorted_wrt (<) (map hd groups) \<and> [] \<notin> set groups"
proof -
  let ?single = "map (\<lambda>i. [i]) [0 ..< length chunks]"
  have single: "merge_chunks csim sl chunks emb = chunks \<Longrightarrow> ?thesis"
    using singleton_groups_chunks [of sl chunks] singleton_groups_partition [of "length chunks"]
      singleton_groups_sorted [of "length chunks"]
    by (intro exI [of _ ?single]) auto
  show ?thesis
  proof (cases "merge_chunks_try csim sl chunks emb")
    case (Inl e)
    then show ?thesis by (intro single) (simp add: merge_chunks_def)
  next
    case (Inr out)
    show ?thesis
    proof (cases "length chunks \<le> 1")
      case True
      with Inr show ?thesis by (intro single) (auto simp: merge_chunks_def merge_chunks_try_def)
    next
      case False
      with Inr obtain m where m: "csim emb = Inr m"
        and loop: "merge_loop sl m chunks {} [0 ..< length chunks] = Inr out"
        by (cases "csim emb") (auto simp: merge_chunks_try_def)
      let ?groups = "anchor_groups (\<lambda>i j. m ! i ! j) (length chunks) {} [0 ..< length chunks]"
      have "merge_chunks csim sl chunks emb = map (merged_group_chunk sl chunks) ?groups"
        using merge_loop_Inr [OF loop] Inr by (simp add: merge_chunks_def)
      moreover have "[] \<notin> set ?groups"
        using anchor_groups_members by blast
      ultimately show ?thesis
        using anchor_groups_partition anchor_groups_sorted by blast
    qed
  qed
qed

lemma anchor_groups_membership:
  assumes "p < length (anchor_groups sim n {} [0 ..< n])"
  shows "j \<in> set (tl (anchor_groups sim n {} [0 ..< n] ! p)) \<longleftrightarrow>
     hd (anchor_groups sim n {} [0 ..< n] ! p) < j \<and> j < n
     \<and> j \<notin> \<Union> (set ` set (take p (anchor_groups sim n {} [0 ..< n])))
     \<and> sim (hd (anchor_groups sim n {} [0 ..< n] ! p)) j > similarity_threshold"
proof -
  let ?gs = "anchor_groups sim n {} [0 ..< n]"
  have "tl (?gs ! p) = joins sim n ({} \<union> \<Union> (set ` set (take p ?gs))) (hd (?gs ! p))"
    using anchor_groups_nth [OF assms] by (metis list.sel(3))
  then show ?thesis by (simp add: set_joins)
qed

lemma merge_chunks_try_groups:
  assumes "merge_chunks_try csim sl chunks emb = Inr out" and "csim emb = Inr m"
  shows "out = map (merged_group_chunk sl chunks)
                 (anchor_groups (\<lambda>i j. m ! i ! j) (length chunks) {} [0 ..< length chunks])"
proof (cases "length chunks \<le> 1")
  case False
  with assms have "merge_loop sl m chunks {} [0 ..< length chunks] = Inr out"
    by (simp add: merge_chunks_try_def)
  then show ?thesis by (rule merge_loop_Inr)
next
  case True
  with assms have out: "out = chunks" by (simp add: merge_chunks_try_def)
  from True consider "chunks = []" | c where "chunks = [c]"
    by (cases chunks) auto
  then show ?thesis
  proof cases
    case 1
    then show ?thesis by (simp add: out)
  next
    case 2
    then show ?thesis
      by (simp add: out anchor_groups_Cons joins_def merged_group_chunk_def)
  qed
qed

lemma merge_chunks_try_covers:
  assumes "csim emb = Inr m" and "covers m (length chunks)"
  shows "\<exists>out. merge_chunks_try csim sl chunks emb = Inr out"
  using assms merge_loop_covers [of m chunks sl "{}" 0]
  by (simp add: merge_chunks_try_def)

section \<open>The fields of a merged chunk\<close>

lemma join_space_Cons:
  "join_space (x # xs) = (if xs = [] then x else x @ '' '' @ join_space xs)"
  by (cases xs) simp_all

lemma join_space_glue:
  "join_space ((a @ '' '' @ b) # rest) = a @ '' '' @ join_space (b # rest)"
  by (simp add: join_space_Cons)

lemma foldl_join_space:
  "foldl (\<lambda>acc idx. acc @ '' '' @ f idx) a xs = join_space (a # map f xs)"
proof (induction xs arbitrary: a)
  case Nil
  then show ?case by simp
next
  case (Cons x xs)
  have "foldl (\<lambda>acc idx. acc @ '' '' @ f idx) a (x # xs)
      = join_space ((a @ '' '' @ f x) # map f xs)"
    using Cons.IH [of "a @ '' '' @ f x"] by simp
  also have "\<dots> = join_space (a # map f (x # xs))"
    by (simp only: join_space_glue list.map join_space.simps)
  finally show ?case .
qed

lemma foldl_join_space':
  "foldl (\<lambda>acc idx. acc @ CHR '' '' # f idx) a xs = join_space (a # map f xs)"
  using foldl_join_space [of f a xs] by simp

lemma foldl_extend:
  "foldl (\<lambda>acc idx. acc @ f idx) a xs = a @ concat (map f xs)"
  by (induction xs arbitrary: a) simp_all

lemma max_of_Max: "xs \<noteq> [] \<Longrightarrow> max_of xs = Max (set xs)"
proof (cases xs)
  case Nil
  assume "xs \<noteq> []"
  with Nil show ?thesis by simp
next
  case (Cons a list)
  show ?thesis
    using Max.set_eq_fold [of a list] by (simp add: max_of_def Cons)
qed

lemma merged_group_chunk_fields:
  fixes chunks :: "ChunkMetadata list" and g :: "nat list" and sl :: "string list \<Rightarrow> string list"
  assumes "length g > 1" and "set_order sl"
  defines "c \<equiv> merged_group_chunk sl chunks g"
    and "members \<equiv> map ((!) chunks) g"
  shows "content c = join_space (map content members)"
    and "entities c = concat (map entities members)"
    and "distinct (keywords c) \<and> set (keywords c) = \<Union> (set ` keywords ` set members)"
    and "distinct (legal_terms c) \<and> set (legal_terms c) = \<Union> (set ` legal_terms ` set members)"
    and "distinct (case_references c)
         \<and> set (case_references c) = \<Union> (set ` case_references ` set members)"
    and "distinct (statute_references c)
         \<and> set (statute_references c) = \<Union> (set ` statute_references ` set members)"
    and "importance_score c = Max (importance_score ` set members)"
    and "chunk_id c = chunk_id (hd members)"
    and "start_position c = start_position (hd members)"
    and "end_position c = end_position (last members)"
proof -
  from assms(1) obtain i s where g: "g = i # s" and s: "s \<noteq> []"
    by (cases g) auto
  have c: "c = merged_chunk sl chunks (chunks ! i) s"
    using s by (simp add: c_def g merged_group_chunk_def)
  have so: "distinct (sl xs)" "set (sl xs) = set xs" for xs
    using assms(2) by (simp_all add: set_order_def)
  show "content c = join_space (map content members)"
    by (simp add: c merged_chunk_def Let_def foldl_join_space' members_def g o_def)
  show "entities c = concat (map entities members)"
    by (simp add: c merged_chunk_def Let_def foldl_extend members_def g o_def)
  show "distinct (keywords c) \<and> set (keywords c) = \<Union> (set ` keywords ` set members)"
    by (simp add: c merged_chunk_def Let_def foldl_extend members_def g so)
  show "distinct (legal_terms c) \<and> set (legal_terms c) = \<Union> (set ` legal_terms ` set members)"
    by (simp add: c merged_chunk_def Let_def foldl_extend members_def g so)
  show "distinct (case_references c)
         \<and> set (case_references c) = \<Union> (set ` case_references ` set members)"
    by (simp add: c merged_chunk_def Let_def foldl_extend members_def g so)
  show "distinct (statute_references c)
         \<and> set (statute_references c) = \<Union> (set ` statute_references ` set members)"
    by (simp add: c merged_chunk_def Let_def foldl_extend members_def g so)
  have "importance_score c
      = max (importance_score (chunks ! i)) (Max (set (map (\<lambda>idx. importance_score (chunks ! idx)) s)))"
    using s by (simp add: c merged_chunk_def Let_def max_of_Max)
  also have "\<dots> = Max (insert (importance_score (chunks ! i))
        (set (map (\<lambda>idx. importance_score (chunks ! idx)) s)))"
    using s by (subst Max_insert) simp_all
  also have "insert (importance_score (chunks ! i)) (set (map (\<lambda>idx. importance_score (chunks ! idx)) s))
      = importance_score ` set members"
    by (auto simp: members_def g)
  finally show "importance_score c = Max (importance_score ` set members)" .
  show "chunk_id c = chunk_id (hd members)"
    by (simp add: c merged_chunk_def Let_def members_def g)
  show "start_position c = start_position (hd members)"
    by (simp add: c merged_chunk_def Let_def members_def g)
  show "end_position c = end_position (last members)"
    using s by (simp add: c merged_chunk_def Let_def members_def g last_map)
qed

lemma group_chunk_fields:
  fixes chunks :: "chunk_dict list" and g :: "nat list"
  assumes "length g > 1"
  defines "c \<equiv> group_chunk chunks g"
    and "members \<equiv> map ((!) chunks) g"
  shows "c_content c = join_space (map c_content members)"
    and "c_metadata c = (c_metadata (hd members))\<lparr>m_merged_from := Some (map c_chunk_id members)\<rparr>"
    and "c_chunk_id c = c_document_id (hd members) @ ''_merged_'' @ str_nat (hd g)"
proof -
  from assms(1) have g: "g \<noteq> []" by auto
  show "c_content c = join_space (map c_content members)"
    using assms(1) by (simp add: c_def group_chunk_def optimized_chunk_def members_def o_def)
  show "c_metadata c = (c_metadata (hd members))\<lparr>m_merged_from := Some (map c_chunk_id members)\<rparr>"
    using assms(1) g by (simp add: c_def group_chunk_def optimized_chunk_def members_def o_def hd_map)
  show "c_chunk_id c = c_document_id (hd members) @ ''_merged_'' @ str_nat (hd g)"
    using assms(1) g by (simp add: c_def group_chunk_def optimized_chunk_def members_def hd_map)
qed

lemma set_order_remdups: "set_order remdups"
  by (simp add: set_order_def)

section \<open>The ranking of the query matcher\<close>

lemma insort_key_scored:
  "insort_key (\<lambda>x. - fst x) (score c, c) (map (\<lambda>c. (score c, c)) xs)
     = map (\<lambda>c. (score c, c)) (insort_key (\<lambda>c. - score c) c xs)"
  for score :: "'a \<Rightarrow> real"
  by (induction xs) simp_all

lemma sort_key_scored:
  "sort_key (\<lambda>x. - fst x) (map (\<lambda>c. (score c, c)) xs)
     = map (\<lambda>c. (score c, c)) (sort_key (\<lambda>c. - score c) xs)"
  for score :: "'a \<Rightarrow> real"
  by (induction xs) (simp_all add: insort_key_scored)

lemma slice_to_map: "slice_to k (map f xs) = map f (slice_to k xs)"
  by (simp add: slice_to_def take_map)

lemma search_similar_chunks_ranked:
  "search_similar_chunks encode cosine query chunks top_k
     = slice_to top_k
         (sort_key (\<lambda>c. - query_score encode cosine query c) (filter has_embedding chunks))"
proof (cases "chunks = []")
  case True
  then show ?thesis by (simp add: search_similar_chunks_def slice_to_def)
next
  case False
  have "sort_key (\<lambda>x. - fst x)
          (map (\<lambda>chunk. (cosine (encode query) (embedding_of chunk), chunk))
             (filter has_embedding chunks))
      = map (\<lambda>c. (query_score encode cosine query c, c))
          (sort_key (\<lambda>c. - query_score encode cosine query c) (filter has_embedding chunks))"
    unfolding query_score_def by (rule sort_key_scored)
  with False show ?thesis
    by (simp add: search_similar_chunks_def Let_def slice_to_map [symmetric] o_def)
qed

section \<open>Counting lexicon words\<close>

lemma contains_sublist: "contains s sub \<longleftrightarrow> sublist sub s"
  by (induction s) (simp_all add: sublist_Cons_right)

lemma words_present_card:
  "distinct words \<Longrightarrow>
     words_present words text = card {w \<in> set words. \<exists>pre post. lower text = pre @ w @ post}"
proof -
  assume d: "distinct words"
  have "{w \<in> set words. \<exists>pre post. lower text = pre @ w @ post}
      = set (filter (\<lambda>word. contains (lower text) word) words)"
    by (auto simp: contains_sublist sublist_def)
  moreover have "card (set (filter (\<lambda>word. contains (lower text) word) words))
      = length (filter (\<lambda>word. contains (lower text) word) words)"
    using d by (intro distinct_card) simp
  ultimately show ?thesis
    by (simp only: words_present_def)
qed

lemma occurrences_pos: "contains s sub \<Longrightarrow> 0 < occurrences s sub"
  by (induction s) auto

lemma words_present_le_occurrences:
  "words_present words text \<le> spec_occurrence_count words text"
proof -
  have "length (filter P ws) \<le> sum_list (map f ws)" if "\<And>w. P w \<Longrightarrow> 0 < f w"
    for P :: "string \<Rightarrow> bool" and f :: "string \<Rightarrow> nat" and ws
  proof (induction ws)
    case Nil
    then show ?case by simp
  next
    case (Cons a ws)
    show ?case
    proof (cases "P a")
      case True
      then have "0 < f a" by (rule that)
      with Cons True show ?thesis by simp
    next
      case False
      with Cons show ?thesis by simp
    qed
  qed
  then show ?thesis
    unfolding words_present_def spec_occurrence_count_def
    using occurrences_pos by blast
qed

section \<open>Stripping whitespace\<close>


lemma rstrip_id: "s = [] \<or> \<not> isspace (last s) \<Longrightarrow> rstrip s = s"
proof -
  assume a: "s = [] \<or> \<not> isspace (last s)"
  have "dropWhile isspace (rev s) = rev s"
  proof (cases s rule: rev_cases)
    case Nil
    then show ?thesis by simp
  next
    case (snoc ys y)
    with a show ?thesis by simp
  qed
  then show ?thesis by (simp add: rstrip_def)
qed


lemma length_lstrip: "length (lstrip s) \<le> length s"
  by (simp add: lstrip_def length_dropWhile_le)

lemma length_rstrip: "length (rstrip s) \<le> length s"
  by (metis length_dropWhile_le length_rev rstrip_def)

lemma strip_fixed:
  assumes "strip s = s" and "s \<noteq> []"
  shows "\<not> isspace (hd s) \<and> \<not> isspace (last s)"
proof -
  have "length s = length (lstrip (rstrip s))" using assms(1) by (simp add: strip_def)
  also have "\<dots> \<le> length (rstrip s)" by (rule length_lstrip)
  finally have "length (rstrip s) = length s" using length_rstrip [of s] by simp
  then have "length (dropWhile isspace (rev s)) = length (rev s)"
    by (simp add: rstrip_def)
  moreover have "length (takeWhile isspace (rev s)) + length (dropWhile isspace (rev s))
      = length (rev s)"
    by (simp only: length_append [symmetric] takeWhile_dropWhile_id)
  ultimately have "takeWhile isspace (rev s) = []" by simp
  with takeWhile_dropWhile_id [of isspace "rev s"]
  have d: "dropWhile isspace (rev s) = rev s" by simp
  have r: "rstrip s = s" using d by (simp add: rstrip_def)
  from assms(2) have "rev s \<noteq> []" by simp
  with d have "\<not> isspace (hd (rev s))" by (metis hd_dropWhile)
  then have l: "\<not> isspace (last s)" by (simp add: hd_rev)
  from assms(1) r have "dropWhile isspace s = s" by (simp add: strip_def lstrip_def)
  with assms(2) have "\<not> isspace (hd s)" by (metis hd_dropWhile)
  with l show ?thesis by simp
qed

lemma strip_blank_iff: "strip s = [] \<longleftrightarrow> (\<forall>c \<in> set s. isspace c)"
proof
  assume all: "\<forall>c \<in> set s. isspace c"
  then have "\<forall>c \<in> set (rev s). isspace c" by simp
  then have d: "dropWhile isspace (rev s) = []" by (simp only: dropWhile_eq_Nil_conv)
  show "strip s = []" unfolding strip_def rstrip_def lstrip_def d by simp
next
  assume e: "strip s = []"
  let ?r = "dropWhile isspace (rev s)"
  have "?r = []"
  proof (rule ccontr)
    assume ne: "?r \<noteq> []"
    then have h: "\<not> isspace (hd ?r)" by (rule hd_dropWhile)
    from e have "dropWhile isspace (rev ?r) = []" by (simp add: strip_def lstrip_def rstrip_def)
    then have "\<forall>c \<in> set (rev ?r). isspace c" by (simp add: dropWhile_eq_Nil_conv)
    with ne have "isspace (hd ?r)" by simp
    with h show False by simp
  qed
  then have "\<forall>c \<in> set (rev s). isspace c" by (simp add: dropWhile_eq_Nil_conv)
  then show "\<forall>c \<in> set s. isspace c" by simp
qed

section \<open>The overlap of consecutive chunks\<close>

lemma overlap_text_of_trailing:
  "0 < overlap_size \<Longrightarrow> overlap_text_of overlap_size s = trailing (nat overlap_size) s"
proof -
  assume pos: "0 < overlap_size"
  show ?thesis
  proof (cases "int (length s) > overlap_size")
    case True
    then have "nat (max 0 (int (length s) - overlap_size)) = length s - nat overlap_size"
      using pos by (simp add: max_def)
    with True pos show ?thesis
      by (simp add: overlap_text_of_def slice_from_def trailing_def)
  next
    case False
    then have "length s - nat overlap_size = 0" by simp
    with False show ?thesis by (simp add: overlap_text_of_def trailing_def)
  qed
qed

lemma last_in_trailing: "0 < n \<Longrightarrow> b \<noteq> [] \<Longrightarrow> trailing n b \<noteq> [] \<and> last (trailing n b) = last b"
proof -
  assume "0 < n" "b \<noteq> []"
  then have "length b - n < length b" by (cases b) auto
  then show ?thesis by (simp add: trailing_def)
qed

lemma strip_seeded:
  assumes "0 < n" "b \<noteq> []" "\<not> isspace (last b)" "rest \<noteq> []" "\<not> isspace (last rest)"
  shows "strip (trailing n b @ '' '' @ rest) = lstrip (trailing n b) @ '' '' @ rest"
proof -
  have "rstrip (trailing n b @ '' '' @ rest) = trailing n b @ '' '' @ rest"
    using assms(4,5) by (intro rstrip_id) simp
  moreover have "last b \<in> set (trailing n b)"
    using last_in_trailing [OF assms(1,2)] by (metis last_in_set)
  then have "dropWhile isspace (trailing n b @ '' '' @ rest)
      = dropWhile isspace (trailing n b) @ '' '' @ rest"
    using assms(3) by (rule dropWhile_append1)
  ultimately show ?thesis by (simp add: strip_def lstrip_def)
qed

lemma lstrip_trailing_strip:
  assumes "0 < n" "b \<noteq> []" "\<not> isspace (last b)"
  shows "lstrip (trailing n (strip b)) = lstrip (trailing n b)"
proof -
  define w where "w = takeWhile isspace b"
  define c where "c = dropWhile isspace b"
  have b: "b = w @ c" by (simp add: w_def c_def)
  have sb: "strip b = c"
    using assms(2,3) by (simp add: strip_def rstrip_id lstrip_def c_def)
  have w: "\<forall>x \<in> set w. isspace x" by (auto simp: w_def dest: set_takeWhileD)
  show ?thesis
  proof (cases "n \<le> length c")
    case True
    then have "trailing n b = trailing n c"
      by (simp add: trailing_def b)
    then show ?thesis by (simp add: sb)
  next
    case False
    then have tc: "trailing n c = c" by (simp add: trailing_def)
    have "trailing n b = drop (length w + length c - n) w @ c"
      using False by (simp add: trailing_def b)
    moreover have "\<forall>x \<in> set (drop (length w + length c - n) w). isspace x"
      using w by (meson in_set_dropD)
    ultimately have "dropWhile isspace (trailing n b) = dropWhile isspace c"
      by (simp add: dropWhile_append2)
    then show ?thesis by (simp add: sb tc lstrip_def)
  qed
qed

lemma seeded_prefix:
  assumes "0 < n" "b \<noteq> []" "\<not> isspace (last b)" "rest \<noteq> []" "\<not> isspace (last rest)"
  shows "prefix (lstrip (trailing n (strip b))) (strip (trailing n b @ '' '' @ rest))"
  unfolding strip_seeded [OF assms] lstrip_trailing_strip [OF assms(1,2,3)]
  by (rule prefixI) simp


lemma chunkText_make_chunk [simp]: "chunkText (make_chunk cur sp idx) = strip cur"
  by (simp add: make_chunk_def)

lemma chunker_inv_seal:
  assumes inv: "chunker_inv n st" and n: "0 < n" and cur: "cs_current_chunk st \<noteq> []"
  shows "\<forall>k. Suc k < length (cs_chunks st @ [make_chunk (cs_current_chunk st) sp idx]) \<longrightarrow>
          prefix (lstrip (trailing n
                    (chunkText ((cs_chunks st @ [make_chunk (cs_current_chunk st) sp idx]) ! k))))
            (chunkText ((cs_chunks st @ [make_chunk (cs_current_chunk st) sp idx]) ! Suc k))"
proof (intro allI impI)
  fix k
  let ?cs = "cs_chunks st" and ?c = "make_chunk (cs_current_chunk st) sp idx"
  assume k: "Suc k < length (?cs @ [?c])"
  show "prefix (lstrip (trailing n (chunkText ((?cs @ [?c]) ! k))))
            (chunkText ((?cs @ [?c]) ! Suc k))"
  proof (cases "Suc k < length ?cs")
    case True
    with inv show ?thesis by (simp add: chunker_inv_def nth_append)
  next
    case False
    with k have sk: "Suc k = length ?cs" by simp
    then have ne: "?cs \<noteq> []" by auto
    from sk have "k = length ?cs - 1" by simp
    then have lastk: "?cs ! k = last ?cs" using ne by (simp add: last_conv_nth)
    from inv ne obtain b rest where
      b: "chunkText (last ?cs) = strip b" "b \<noteq> []" "\<not> isspace (last b)"
         "cs_current_chunk st = trailing n b @ '' '' @ rest" "rest \<noteq> []" "\<not> isspace (last rest)"
      unfolding chunker_inv_def by blast
    have "prefix (lstrip (trailing n (strip b))) (strip (trailing n b @ '' '' @ rest))"
      using n b(2,3,5,6) by (rule seeded_prefix)
    then show ?thesis
      using sk lastk b(1,4) by (simp add: nth_append)
  qed
qed

lemma chunker_inv_step:
  assumes inv: "chunker_inv (nat overlap_size) st" and pos: "0 < overlap_size"
    and s: "strip sentence = sentence"
  shows "chunker_inv (nat overlap_size) (chunk_step max_chunk_size overlap_size st sentence)"
proof (cases "strip sentence = []")
  case True
  then show ?thesis using inv by (simp add: chunk_step_def)
next
  case False
  with s have ne: "sentence \<noteq> []" by auto
  from strip_fixed [OF s ne] have ls: "\<not> isspace (last sentence)" by simp
  let ?n = "nat overlap_size"
  let ?cur = "cs_current_chunk st"
  have n: "0 < ?n" using pos by simp
  show ?thesis
  proof (cases "int (length ?cur) + int (length sentence) > max_chunk_size \<and> ?cur \<noteq> []")
    case True
    then have cur: "?cur \<noteq> []" by simp
    with inv have lc: "\<not> isspace (last ?cur)" by (simp add: chunker_inv_def)
    let ?c = "make_chunk ?cur (cs_start_pos st) (cs_chunk_index st)"
    let ?st' = "chunk_step max_chunk_size overlap_size st sentence"
    have chunks': "cs_chunks ?st' = cs_chunks st @ [?c]"
      and cur': "cs_current_chunk ?st' = trailing ?n ?cur @ '' '' @ sentence"
      using True False by (simp_all add: chunk_step_def Let_def overlap_text_of_trailing [OF pos])
    have 1: "cs_current_chunk ?st' = [] \<or> \<not> isspace (last (cs_current_chunk ?st'))"
      using ls ne by (simp add: cur')
    have 2: "\<exists>b rest. chunkText (last (cs_chunks ?st')) = strip b \<and> b \<noteq> [] \<and> \<not> isspace (last b)
           \<and> cs_current_chunk ?st' = trailing ?n b @ '' '' @ rest
           \<and> rest \<noteq> [] \<and> \<not> isspace (last rest)"
      using cur lc ne ls by (intro exI [of _ ?cur] exI [of _ sentence]) (simp add: chunks' cur')
    have 3: "\<forall>k. Suc k < length (cs_chunks ?st') \<longrightarrow>
          prefix (lstrip (trailing ?n (chunkText (cs_chunks ?st' ! k))))
            (chunkText (cs_chunks ?st' ! Suc k))"
      unfolding chunks' using inv n cur by (rule chunker_inv_seal)
    from 1 2 3 show ?thesis unfolding chunker_inv_def by blast
  next
    case nosplit: False
    let ?st' = "chunk_step max_chunk_size overlap_size st sentence"
    have chunks': "cs_chunks ?st' = cs_chunks st"
      and cur': "cs_current_chunk ?st' = (if ?cur \<noteq> [] then ?cur @ '' '' @ sentence else sentence)"
      using nosplit False by (simp_all add: chunk_step_def)
    have 1: "cs_current_chunk ?st' = [] \<or> \<not> isspace (last (cs_current_chunk ?st'))"
      using ls ne by (simp add: cur')
    have 2: "cs_chunks ?st' = [] \<or>
        (\<exists>b rest. chunkText (last (cs_chunks ?st')) = strip b \<and> b \<noteq> [] \<and> \<not> isspace (last b)
           \<and> cs_current_chunk ?st' = trailing ?n b @ '' '' @ rest
           \<and> rest \<noteq> [] \<and> \<not> isspace (last rest))"
    proof (cases "cs_chunks st = []")
      case True
      then show ?thesis by (simp add: chunks')
    next
      case False
      with inv obtain b rest where
        b: "chunkText (last (cs_chunks st)) = strip b" "b \<noteq> []" "\<not> isspace (last b)"
           "?cur = trailing ?n b @ '' '' @ rest" "rest \<noteq> []" "\<not> isspace (last rest)"
        unfolding chunker_inv_def by blast
      from b(4) have "?cur \<noteq> []" by simp
      then have "cs_current_chunk ?st' = trailing ?n b @ '' '' @ (rest @ '' '' @ sentence)"
        using b(4) by (simp add: cur')
      moreover have "rest @ '' '' @ sentence \<noteq> []" "\<not> isspace (last (rest @ '' '' @ sentence))"
        using ne ls by simp_all
      ultimately show ?thesis
        using b(1,2,3) unfolding chunks' by blast
    qed
    have 3: "\<forall>k. Suc k < length (cs_chunks ?st') \<longrightarrow>
          prefix (lstrip (trailing ?n (chunkText (cs_chunks ?st' ! k))))
            (chunkText (cs_chunks ?st' ! Suc k))"
      using inv by (simp add: chunks' chunker_inv_def)
    from 1 2 3 show ?thesis unfolding chunker_inv_def by blast
  qed
qed

lemma chunker_inv_init: "chunker_inv n chunker_init"
  by (simp add: chunker_inv_def chunker_init_def)

lemma chunker_inv_foldl:
  assumes "chunker_inv (nat overlap_size) st" and "0 < overlap_size"
    and "\<forall>s \<in> set sentences. strip s = s"
  shows "chunker_inv (nat overlap_size) (foldl (chunk_step max_chunk_size overlap_size) st sentences)"
  using assms
proof (induction sentences arbitrary: st)
  case Nil
  then show ?case by simp
next
  case (Cons s sentences)
  from Cons.prems have "chunker_inv (nat overlap_size) (chunk_step max_chunk_size overlap_size st s)"
    by (intro chunker_inv_step) simp_all
  with Cons show ?case by simp
qed

lemma create_chunks_overlap:
  assumes pos: "0 < overlap_size" and s: "\<forall>s \<in> set sentences. strip s = s"
  shows "\<forall>k. Suc k < length (create_chunks max_chunk_size overlap_size sentences) \<longrightarrow>
     prefix (lstrip (trailing (nat overlap_size)
                (chunkText (create_chunks max_chunk_size overlap_size sentences ! k))))
       (chunkText (create_chunks max_chunk_size overlap_size sentences ! Suc k))"
proof -
  let ?st = "foldl (chunk_step max_chunk_size overlap_size) chunker_init sentences"
  have inv: "chunker_inv (nat overlap_size) ?st"
    using chunker_inv_init pos s by (rule chunker_inv_foldl)
  show ?thesis
  proof (cases "strip (cs_current_chunk ?st) \<noteq> []")
    case True
    then have cur: "cs_current_chunk ?st \<noteq> []" by (auto simp: strip_def lstrip_def rstrip_def)
    have n: "0 < nat overlap_size" using pos by simp
    from chunker_inv_seal [OF inv n cur] True show ?thesis
      by (simp add: create_chunks_def chunker_final_def)
  next
    case False
    with inv show ?thesis
      by (simp add: create_chunks_def chunker_final_def chunker_inv_def)
  qed
qed


lemma create_chunks_followed:
  assumes pos: "0 < overlap_size" and s: "\<forall>s \<in> set sentences. strip s = s"
    and ne: "cs_chunks (foldl (chunk_step max_chunk_size overlap_size) chunker_init sentences) \<noteq> []"
  shows "create_chunks max_chunk_size overlap_size sentences =
     cs_chunks (foldl (chunk_step max_chunk_size overlap_size) chunker_init sentences) @
     [make_chunk
        (cs_current_chunk (foldl (chunk_step max_chunk_size overlap_size) chunker_init sentences))
        (cs_start_pos (foldl (chunk_step max_chunk_size overlap_size) chunker_init sentences))
        (cs_chunk_index (foldl (chunk_step max_chunk_size overlap_size) chunker_init sentences))]"
proof -
  let ?st = "foldl (chunk_step max_chunk_size overlap_size) chunker_init sentences"
  have inv: "chunker_inv (nat overlap_size) ?st"
    using chunker_inv_init pos s by (rule chunker_inv_foldl)
  with ne obtain b rest where
    b: "b \<noteq> []" "\<not> isspace (last b)"
       "cs_current_chunk ?st = trailing (nat overlap_size) b @ '' '' @ rest"
       "rest \<noteq> []" "\<not> isspace (last rest)"
    unfolding chunker_inv_def by blast
  have n: "0 < nat overlap_size" using pos by simp
  have "strip (cs_current_chunk ?st) \<noteq> []"
    unfolding b(3) strip_seeded [OF n b(1,2,4,5)] by simp
  then show ?thesis by (simp add: create_chunks_def chunker_final_def)
qed

text \<open>
  With \<open>overlap_size = 0\<close> the slice \<open>current_chunk[-0:]\<close> is the whole buffer: a split
  carries all of the sealed buffer over, not none of it.
\<close>

lemma overlap_text_of_zero: "overlap_text_of 0 s = s"
  by (simp add: overlap_text_of_def slice_from_def)

lemma create_chunks_zero_overlap_example:
  "map chunkText (create_chunks 5 0 [''ab.'', ''cd.'', ''ef.''])
     = [''ab.'', ''ab. cd.'', ''ab. cd. ef.'']"
  by code_simp

section \<open>Offsets by substring search\<close>






lemma replicate_not_blank: "0 < n \<Longrightarrow> \<not> isspace c \<Longrightarrow> strip (replicate n c) \<noteq> []"
  by (auto simp: strip_blank_iff)

section \<open>Annotation and the order of a set\<close>

lemma set_order_length: "set_order sl \<Longrightarrow> length (sl xs) = card (set xs)"
  by (metis distinct_card set_order_def)

lemma set_order_set: "set_order sl \<Longrightarrow> set (sl xs) = set xs"
  by (simp add: set_order_def)

lemma annotate_set_order:
  assumes "set_order (cap_list_of_set caps)" and "set_order sl"
  shows "(annotate (caps\<lparr>cap_list_of_set := sl\<rparr>) c)\<lparr>legal_terms := []\<rparr>
           = (annotate caps c)\<lparr>legal_terms := []\<rparr>"
    and "set (legal_terms (annotate (caps\<lparr>cap_list_of_set := sl\<rparr>) c))
           = set (legal_terms (annotate caps c))"
    and "length (legal_terms (annotate (caps\<lparr>cap_list_of_set := sl\<rparr>) c))
           = length (legal_terms (annotate caps c))"
  using assms
  by (simp_all add: annotate_def calculate_importance_score_def extract_legal_terms_def
      set_order_length set_order_set Let_def)

lemma enhance_set_order:
  assumes "set_order sl" and "set_order sl'"
  shows "(enhance_chunk nlp encode sl' text did i t)
            \<lparr>c_metadata := (c_metadata (enhance_chunk nlp encode sl' text did i t))\<lparr>m_keywords := []\<rparr>\<rparr>
       = (enhance_chunk nlp encode sl text did i t)
            \<lparr>c_metadata := (c_metadata (enhance_chunk nlp encode sl text did i t))\<lparr>m_keywords := []\<rparr>\<rparr>"
    and "length (m_keywords (c_metadata (enhance_chunk nlp encode sl' text did i t)))
       = length (m_keywords (c_metadata (enhance_chunk nlp encode sl text did i t)))"
  using assms
  by (simp_all add: enhance_chunk_def Let_def set_order_length)

lemma set_order_rev_remdups: "set_order (rev \<circ> remdups)"
  by (simp add: set_order_def)

section \<open>Claim C1: consolidation partitions its input\<close>

text \<open>
  Claim C1. Consolidation partitions the input chunk list. For
  \<open>_optimize_chunks_semantically\<close> (on chunks that carry no \<open>merged_from\<close> yet, as
  \<open>_create_intelligent_chunks\<close> builds them): the output is one chunk per group of the
  anchor scan, the groups together hold every index below \<open>len(chunks)\<close> exactly once,
  the anchors (the first index of each group) increase strictly along the output, the
  source ids of the output chunks (the \<open>merged_from\<close> list of a merged chunk, the
  chunk's own id for a passthrough) are the ids of the group members, they are
  together exactly the input ids, and their total number is the input length.
  For \<open>_merge_chunks\<close>, whatever the similarity function returns or raises: the output
  is one chunk per group of a list of non-empty index groups that hold every index
  exactly once, anchors increasing.
\<close>

theorem C1_consolidation_partitions:
  assumes "\<forall>c \<in> set chunks. m_merged_from (c_metadata c) = None"
  shows "(let out = optimize_chunks_semantically sim chunks;
              groups = anchor_groups sim (length chunks) {} [0 ..< length chunks]
          in out = map (group_chunk chunks) groups
           \<and> mset (concat groups) = mset [0 ..< length chunks]
           \<and> sorted_wrt (<) (map hd groups)
           \<and> map source_ids out = map (map (\<lambda>i. c_chunk_id (chunks ! i))) groups
           \<and> mset (concat (map source_ids out)) = mset (map c_chunk_id chunks)
           \<and> sum_list (map (\<lambda>c. length (source_ids c)) out) = length chunks)
       \<and> (\<exists>groups. merge_chunks csim sl chunks' emb = map (merged_group_chunk sl chunks') groups
           \<and> mset (concat groups) = mset [0 ..< length chunks']
           \<and> sorted_wrt (<) (map hd groups) \<and> [] \<notin> set groups)"
proof -
  let ?n = "length chunks"
  let ?groups = "anchor_groups sim ?n {} [0 ..< ?n]"
  let ?out = "optimize_chunks_semantically sim chunks"
  let ?cid = "\<lambda>i. c_chunk_id (chunks ! i)"
  have out: "?out = map (group_chunk chunks) ?groups" by (rule optimize_groups)
  have part: "mset (concat ?groups) = mset [0 ..< ?n]" by (rule anchor_groups_partition)
  have ids: "map source_ids ?out = map (map ?cid) ?groups"
    unfolding out using anchor_groups_members [of _ sim ?n] source_ids_group_chunk [OF assms]
    by simp
  have "concat (map source_ids ?out) = map ?cid (concat ?groups)"
    unfolding ids by (simp add: map_concat)
  then have "mset (concat (map source_ids ?out)) = image_mset ?cid (mset [0 ..< ?n])"
    using part by (metis mset_map)
  also have "\<dots> = mset (map ?cid [0 ..< ?n])" by simp
  also have "map ?cid [0 ..< ?n] = map c_chunk_id (map ((!) chunks) [0 ..< ?n])"
    by simp
  also have "\<dots> = map c_chunk_id chunks"
    by (simp only: map_nth)
  finally have all: "mset (concat (map source_ids ?out)) = mset (map c_chunk_id chunks)" .
  have "sum_list (map (\<lambda>c. length (source_ids c)) ?out) = length (concat (map source_ids ?out))"
    by (simp add: length_concat o_def)
  also have "\<dots> = size (mset (concat (map source_ids ?out)))" by simp
  also have "\<dots> = ?n" unfolding all by simp
  finally have count: "sum_list (map (\<lambda>c. length (source_ids c)) ?out) = ?n" .
  show ?thesis
    using out part ids all count anchor_groups_sorted [of sim ?n "{}" 0]
      merge_chunks_groups [of csim sl chunks' emb]
    by (simp add: Let_def)
qed

theorem C1_consolidation_partitions_witness:
  "(let chunks = [sample_dict ''d_chunk_0'' ''a'' [], sample_dict ''d_chunk_1'' ''b'' [],
                  sample_dict ''d_chunk_2'' ''c'' []];
        sim = (\<lambda>i j. if i = 0 \<and> j = 2 then 1 else 0);
        out = optimize_chunks_semantically sim chunks
    in anchor_groups sim 3 {} [0 ..< 3] = [[0, 2], [1]]
     \<and> map source_ids out = [[''d_chunk_0'', ''d_chunk_2''], [''d_chunk_1'']]
     \<and> mset (concat (map source_ids out)) = mset [''d_chunk_0'', ''d_chunk_1'', ''d_chunk_2'']
     \<and> sum_list (map (\<lambda>c. length (source_ids c)) out) = 3)"
proof -
  define chunks where "chunks = [sample_dict ''d_chunk_0'' ''a'' [], sample_dict ''d_chunk_1'' ''b'' [],
                  sample_dict ''d_chunk_2'' ''c'' []]"
  define sim :: "nat \<Rightarrow> nat \<Rightarrow> real" where "sim = (\<lambda>i j. if i = 0 \<and> j = 2 then 1 else 0)"
  have len: "length chunks = 3" by (simp add: chunks_def)
  have h: "\<forall>c \<in> set chunks. m_merged_from (c_metadata c) = None"
    by (simp add: chunks_def sample_dict_def)
  have g: "anchor_groups sim 3 {} [0 ..< 3] = [[0, 2], [1]]"
    by (simp add: sim_def anchor_groups_Cons joins_def similarity_threshold_def upt_rec)
  note T = C1_consolidation_partitions [OF h, of sim "\<lambda>_. Inl ValueError" id "[]" "()",
      unfolded Let_def len g]
  have ids: "map (map (\<lambda>i. c_chunk_id (chunks ! i))) [[0, 2], [1]]
      = [[''d_chunk_0'', ''d_chunk_2''], [''d_chunk_1'']]"
    by (simp add: chunks_def sample_dict_def)
  have all: "map c_chunk_id chunks = [''d_chunk_0'', ''d_chunk_1'', ''d_chunk_2'']"
    by (simp add: chunks_def sample_dict_def)
  from T have t1: "map source_ids (optimize_chunks_semantically sim chunks)
        = map (map (\<lambda>i. c_chunk_id (chunks ! i))) [[0, 2], [1]]"
    and t2: "mset (concat (map source_ids (optimize_chunks_semantically sim chunks)))
        = mset (map c_chunk_id chunks)"
    and t3: "sum_list (map (\<lambda>c. length (source_ids c)) (optimize_chunks_semantically sim chunks)) = 3"
    by blast+
  show ?thesis
    unfolding Let_def chunks_def [symmetric] sim_def [symmetric]
    using g t1 [unfolded ids] t2 [unfolded all] t3 by (intro conjI)
qed

section \<open>Claim C4: membership is tested against the anchor only\<close>

text \<open>
  Claim C4. In both consolidators the output is one chunk per group of the anchor
  scan, and an index \<open>j\<close> is a non-anchor member of the group anchored at \<open>i\<close> if and
  only if \<open>i < j\<close> (and \<open>j\<close> is an index of the list), \<open>j\<close> is in none of the groups
  formed before, and the similarity of \<open>i\<close> and \<open>j\<close> is strictly above the threshold,
  which is 0.8. The similarity between two non-anchor members is never read: there
  is a similarity function under which \<open>1\<close> and \<open>2\<close> share the group of \<open>0\<close> while their
  own similarity is not above the threshold.
\<close>

theorem C4_anchor_only_membership:
  "(let n = length chunks; groups = anchor_groups sim n {} [0 ..< n]
    in optimize_chunks_semantically sim chunks = map (group_chunk chunks) groups
     \<and> (\<forall>p j. p < length groups \<longrightarrow>
          (j \<in> set (tl (groups ! p)) \<longleftrightarrow>
             hd (groups ! p) < j \<and> j < n \<and> j \<notin> \<Union> (set ` set (take p groups))
             \<and> sim (hd (groups ! p)) j > similarity_threshold)))
   \<and> (\<forall>m out. cosine_similarity emb = Inr m
          \<and> merge_chunks_try cosine_similarity list_of_set chunks' emb = Inr out \<longrightarrow>
        (let n = length chunks'; groups = anchor_groups (\<lambda>i j. m ! i ! j) n {} [0 ..< n]
         in out = map (merged_group_chunk list_of_set chunks') groups
          \<and> (\<forall>p j. p < length groups \<longrightarrow>
               (j \<in> set (tl (groups ! p)) \<longleftrightarrow>
                  hd (groups ! p) < j \<and> j < n \<and> j \<notin> \<Union> (set ` set (take p groups))
                  \<and> m ! hd (groups ! p) ! j > similarity_threshold))))
   \<and> similarity_threshold = 0.8
   \<and> (\<exists>sim'. anchor_groups sim' 3 {} [0 ..< 3] = [[0, 1, 2]]
          \<and> \<not> sim' 1 2 > similarity_threshold)"
proof -
  have ex: "anchor_groups (\<lambda>i j. if i = 0 then 1 else 0) 3 {} [0 ..< 3] = [[0, 1, 2]]"
    by (simp add: anchor_groups_Cons joins_def similarity_threshold_def upt_rec)
  have "\<exists>sim'. anchor_groups sim' 3 {} [0 ..< 3] = [[0, 1, 2]]
          \<and> \<not> sim' 1 2 > similarity_threshold"
    by (rule exI [of _ "\<lambda>i j. if i = 0 then 1 else 0"])
       (simp add: ex similarity_threshold_def)
  then show ?thesis
    using optimize_groups [of sim chunks] anchor_groups_membership
      merge_chunks_try_groups [of cosine_similarity list_of_set chunks' emb]
    by (simp add: Let_def similarity_threshold_def)
qed

theorem C4_anchor_only_membership_witness:
  "(let sim = (\<lambda>i j. if i = 0 then 1 else 0);
        chunks = [sample_dict ''d_chunk_0'' ''a'' [], sample_dict ''d_chunk_1'' ''b'' [],
                  sample_dict ''d_chunk_2'' ''c'' []];
        groups = anchor_groups sim 3 {} [0 ..< 3]
    in groups = [[0, 1, 2]]
     \<and> optimize_chunks_semantically sim chunks = [group_chunk chunks [0, 1, 2]]
     \<and> 2 \<in> set (tl (groups ! 0)) \<and> hd (groups ! 0) < 2
     \<and> sim 0 2 > similarity_threshold \<and> \<not> sim 1 2 > similarity_threshold)
   \<and> (let chunks' = [sample_chunk ''d_chunk_0'' ''a'' [] 0, sample_chunk ''d_chunk_1'' ''b'' [] 0,
                  sample_chunk ''d_chunk_2'' ''c'' [] 0]
      in merge_chunks_try (\<lambda>_. Inr [[1, 1, 1], [1, 0, 0], [1, 0, 0]]) remdups chunks' ()
          = Inr [merged_group_chunk remdups chunks' [0, 1, 2]])"
proof -
  define sim :: "nat \<Rightarrow> nat \<Rightarrow> real" where "sim = (\<lambda>i j. if i = 0 then 1 else 0)"
  define chunks where "chunks = [sample_dict ''d_chunk_0'' ''a'' [], sample_dict ''d_chunk_1'' ''b'' [],
                  sample_dict ''d_chunk_2'' ''c'' []]"
  define chunks' where "chunks' = [sample_chunk ''d_chunk_0'' ''a'' [] 0,
      sample_chunk ''d_chunk_1'' ''b'' [] 0, sample_chunk ''d_chunk_2'' ''c'' [] 0]"
  define m :: "real list list" where "m = [[1, 1, 1], [1, 0, 0], [1, 0, 0]]"
  define csim :: "unit \<Rightarrow> py_exception + real list list" where "csim = (\<lambda>_. Inr m)"
  have len: "length chunks = 3" "length chunks' = 3" by (simp_all add: chunks_def chunks'_def)
  have g: "anchor_groups sim 3 {} [0 ..< 3] = [[0, 1, 2]]"
    by (simp add: sim_def anchor_groups_Cons joins_def similarity_threshold_def upt_rec)
  have g': "anchor_groups (\<lambda>i j. m ! i ! j) 3 {} [0 ..< 3] = [[0, 1, 2]]"
    by (simp add: m_def anchor_groups_Cons joins_def similarity_threshold_def upt_rec)
  have cov: "covers m (length chunks')" by (simp add: covers_def m_def len)
  have cs: "csim () = Inr m" by (simp add: csim_def)
  obtain out where out: "merge_chunks_try csim remdups chunks' () = Inr out"
    using merge_chunks_try_covers [where csim = csim and emb = "()" and m = m and chunks = chunks'
        and sl = remdups] cs cov by blast
  note T = C4_anchor_only_membership [of chunks sim csim "()" remdups chunks',
      unfolded Let_def len g g']
  note t1 = T [THEN conjunct1, THEN conjunct1]
  note t2 = T [THEN conjunct1, THEN conjunct2]
  note t3 = T [THEN conjunct2, THEN conjunct1]
  from t2 [rule_format, of 0 2] have a: "2 \<in> set (tl ([[0, 1, 2 :: nat]] ! 0))"
    "sim 0 2 > similarity_threshold" by simp_all
  from t3 [rule_format, OF conjI [OF cs out], THEN conjunct1]
  have "out = map (merged_group_chunk remdups chunks') [[0, 1, 2]]"
    unfolding g' .
  with out have b: "merge_chunks_try csim remdups chunks' () = Inr [merged_group_chunk remdups chunks' [0, 1, 2]]"
    by simp
  have c: "\<not> sim 1 2 > similarity_threshold" by (simp add: sim_def similarity_threshold_def)
  show ?thesis
    unfolding Let_def chunks_def [symmetric] chunks'_def [symmetric] sim_def [symmetric] g
      m_def [symmetric] csim_def [symmetric]
    using t1 a b c by simp
qed

section \<open>Claim C3: the fields of a consolidated chunk\<close>

text \<open>
  Claim C3, as amended. No one consolidator does all the claim lists. For a group with
  more than one member: \<open>_optimize_chunks_semantically\<close> joins the members' contents
  with spaces in source order and records \<open>merged_from\<close>, the members' chunk ids in
  order, while every other metadata entry (keywords and entities among them) is the
  anchor's own; \<open>_merge_chunks\<close> joins the contents with spaces in source order,
  concatenates the members' entities, lists each keyword, legal term, case reference
  and statute reference of the members once (given that \<open>list(set(xs))\<close> lists the
  elements of \<open>xs\<close> once each), takes the maximum importance score, keeps the
  anchor's chunk id, and its dataclass has no \<open>merged_from\<close>. A group of one member
  is the input chunk itself, with no \<open>merged_from\<close> added.
\<close>

theorem C3_consolidated_chunk_fields:
  assumes "set_order list_of_set"
  shows
  "(let groups = anchor_groups sim (length chunks) {} [0 ..< length chunks];
        out = optimize_chunks_semantically sim chunks
    in length out = length groups
     \<and> (\<forall>p < length groups.
          (let c = out ! p; members = map ((!) chunks) (groups ! p)
           in if length (groups ! p) > 1
              then c_content c = join_space (map c_content members)
                 \<and> c_metadata c
                     = (c_metadata (hd members))\<lparr>m_merged_from := Some (map c_chunk_id members)\<rparr>
              else c = hd members)))
   \<and> (\<forall>m out. cosine_similarity emb = Inr m
          \<and> merge_chunks_try cosine_similarity list_of_set chunks' emb = Inr out \<longrightarrow>
       (let groups = anchor_groups (\<lambda>i j. m ! i ! j) (length chunks') {} [0 ..< length chunks']
        in length out = length groups
         \<and> (\<forall>p < length groups.
             (let c = out ! p; members = map ((!) chunks') (groups ! p)
              in if length (groups ! p) > 1
                 then content c = join_space (map content members)
                    \<and> entities c = concat (map entities members)
                    \<and> distinct (keywords c)
                    \<and> set (keywords c) = \<Union> (set ` keywords ` set members)
                    \<and> distinct (legal_terms c)
                    \<and> set (legal_terms c) = \<Union> (set ` legal_terms ` set members)
                    \<and> distinct (case_references c)
                    \<and> set (case_references c) = \<Union> (set ` case_references ` set members)
                    \<and> distinct (statute_references c)
                    \<and> set (statute_references c) = \<Union> (set ` statute_references ` set members)
                    \<and> importance_score c = Max (importance_score ` set members)
                    \<and> chunk_id c = chunk_id (hd members)
                 else c = hd members))))"
proof -
  have hyphen: "(let c = map (group_chunk chunks) groups ! p; members = map ((!) chunks) (groups ! p)
           in if length (groups ! p) > 1
              then c_content c = join_space (map c_content members)
                 \<and> c_metadata c
                     = (c_metadata (hd members))\<lparr>m_merged_from := Some (map c_chunk_id members)\<rparr>
              else c = hd members)"
    if "p < length groups" "groups ! p \<noteq> []" for groups p
  proof (cases "length (groups ! p) > 1")
    case True
    with that group_chunk_fields(1,2) [of "groups ! p" chunks] show ?thesis
      by (simp add: Let_def)
  next
    case False
    with that show ?thesis by (simp add: Let_def group_chunk_def hd_map)
  qed
  have under: "(let c = map (merged_group_chunk list_of_set chunks') groups ! p;
                    members = map ((!) chunks') (groups ! p)
              in if length (groups ! p) > 1
                 then content c = join_space (map content members)
                    \<and> entities c = concat (map entities members)
                    \<and> distinct (keywords c)
                    \<and> set (keywords c) = \<Union> (set ` keywords ` set members)
                    \<and> distinct (legal_terms c)
                    \<and> set (legal_terms c) = \<Union> (set ` legal_terms ` set members)
                    \<and> distinct (case_references c)
                    \<and> set (case_references c) = \<Union> (set ` case_references ` set members)
                    \<and> distinct (statute_references c)
                    \<and> set (statute_references c) = \<Union> (set ` statute_references ` set members)
                    \<and> importance_score c = Max (importance_score ` set members)
                    \<and> chunk_id c = chunk_id (hd members)
                 else c = hd members)"
    if "p < length groups" "groups ! p \<noteq> []" for groups p
  proof (cases "length (groups ! p) > 1")
    case True
    note F = merged_group_chunk_fields [OF True assms, of chunks']
    from that F(1-8) show ?thesis
      unfolding Let_def by (simp only: nth_map True if_True)
  next
    case False
    with that(2) obtain i where "groups ! p = [i]" by (cases "groups ! p") auto
    with that False show ?thesis by (simp add: Let_def merged_group_chunk_def)
  qed
  have nonempty: "anchor_groups s n {} [0 ..< n] ! p \<noteq> []"
    if "p < length (anchor_groups s n {} [0 ..< n])" for s n p
    using anchor_groups_members [of "anchor_groups s n {} [0 ..< n] ! p" s n] that by simp
  have 1: "(let groups = anchor_groups sim (length chunks) {} [0 ..< length chunks];
        out = optimize_chunks_semantically sim chunks
    in length out = length groups
     \<and> (\<forall>p < length groups.
          (let c = out ! p; members = map ((!) chunks) (groups ! p)
           in if length (groups ! p) > 1
              then c_content c = join_space (map c_content members)
                 \<and> c_metadata c
                     = (c_metadata (hd members))\<lparr>m_merged_from := Some (map c_chunk_id members)\<rparr>
              else c = hd members)))"
    unfolding optimize_groups Let_def
  proof (intro conjI allI impI)
    let ?groups = "anchor_groups sim (length chunks) {} [0 ..< length chunks]"
    show "length (map (group_chunk chunks) ?groups) = length ?groups" by simp
    fix p assume p: "p < length ?groups"
    from hyphen [unfolded Let_def, OF p nonempty [OF p]]
    show "if 1 < length (?groups ! p)
       then c_content (map (group_chunk chunks) ?groups ! p)
              = join_space (map c_content (map ((!) chunks) (?groups ! p)))
          \<and> c_metadata (map (group_chunk chunks) ?groups ! p)
              = (c_metadata (hd (map ((!) chunks) (?groups ! p))))
                  \<lparr>m_merged_from := Some (map c_chunk_id (map ((!) chunks) (?groups ! p)))\<rparr>
       else map (group_chunk chunks) ?groups ! p = hd (map ((!) chunks) (?groups ! p))" .
  qed
  have 2: "(let groups = anchor_groups (\<lambda>i j. m ! i ! j) (length chunks') {} [0 ..< length chunks']
        in length out = length groups
         \<and> (\<forall>p < length groups.
             (let c = out ! p; members = map ((!) chunks') (groups ! p)
              in if length (groups ! p) > 1
                 then content c = join_space (map content members)
                    \<and> entities c = concat (map entities members)
                    \<and> distinct (keywords c)
                    \<and> set (keywords c) = \<Union> (set ` keywords ` set members)
                    \<and> distinct (legal_terms c)
                    \<and> set (legal_terms c) = \<Union> (set ` legal_terms ` set members)
                    \<and> distinct (case_references c)
                    \<and> set (case_references c) = \<Union> (set ` case_references ` set members)
                    \<and> distinct (statute_references c)
                    \<and> set (statute_references c) = \<Union> (set ` statute_references ` set members)
                    \<and> importance_score c = Max (importance_score ` set members)
                    \<and> chunk_id c = chunk_id (hd members)
                 else c = hd members)))"
    if "cosine_similarity emb = Inr m"
      "merge_chunks_try cosine_similarity list_of_set chunks' emb = Inr out" for m out
    unfolding merge_chunks_try_groups [OF that(2,1)] Let_def
  proof (intro conjI allI impI)
    let ?groups = "anchor_groups (\<lambda>i j. m ! i ! j) (length chunks') {} [0 ..< length chunks']"
    show "length (map (merged_group_chunk list_of_set chunks') ?groups) = length ?groups" by simp
    fix p assume p: "p < length ?groups"
    from under [unfolded Let_def, OF p nonempty [OF p]]
    show "if 1 < length (?groups ! p)
       then content (map (merged_group_chunk list_of_set chunks') ?groups ! p)
              = join_space (map content (map ((!) chunks') (?groups ! p)))
          \<and> entities (map (merged_group_chunk list_of_set chunks') ?groups ! p)
              = concat (map entities (map ((!) chunks') (?groups ! p)))
          \<and> distinct (keywords (map (merged_group_chunk list_of_set chunks') ?groups ! p))
          \<and> set (keywords (map (merged_group_chunk list_of_set chunks') ?groups ! p))
              = \<Union> (set ` keywords ` set (map ((!) chunks') (?groups ! p)))
          \<and> distinct (legal_terms (map (merged_group_chunk list_of_set chunks') ?groups ! p))
          \<and> set (legal_terms (map (merged_group_chunk list_of_set chunks') ?groups ! p))
              = \<Union> (set ` legal_terms ` set (map ((!) chunks') (?groups ! p)))
          \<and> distinct (case_references (map (merged_group_chunk list_of_set chunks') ?groups ! p))
          \<and> set (case_references (map (merged_group_chunk list_of_set chunks') ?groups ! p))
              = \<Union> (set ` case_references ` set (map ((!) chunks') (?groups ! p)))
          \<and> distinct (statute_references (map (merged_group_chunk list_of_set chunks') ?groups ! p))
          \<and> set (statute_references (map (merged_group_chunk list_of_set chunks') ?groups ! p))
              = \<Union> (set ` statute_references ` set (map ((!) chunks') (?groups ! p)))
          \<and> importance_score (map (merged_group_chunk list_of_set chunks') ?groups ! p)
              = Max (importance_score ` set (map ((!) chunks') (?groups ! p)))
          \<and> chunk_id (map (merged_group_chunk list_of_set chunks') ?groups ! p)
              = chunk_id (hd (map ((!) chunks') (?groups ! p)))
       else map (merged_group_chunk list_of_set chunks') ?groups ! p
              = hd (map ((!) chunks') (?groups ! p))" .
  qed
  from 1 2 show ?thesis by blast
qed

theorem C3_union_counterexample:
  "(let chunks = [sample_dict ''d_chunk_0'' ''a'' [''court''],
                  sample_dict ''d_chunk_1'' ''b'' [''judge'']];
        out = optimize_chunks_semantically (\<lambda>i j. 1) chunks
    in length out = 1
     \<and> c_content (out ! 0) = ''a b''
     \<and> m_merged_from (c_metadata (out ! 0)) = Some [''d_chunk_0'', ''d_chunk_1'']
     \<and> m_keywords (c_metadata (out ! 0)) = [''court'']
     \<and> set (m_keywords (c_metadata (out ! 0)))
         \<noteq> set (m_keywords (c_metadata (chunks ! 0))) \<union> set (m_keywords (c_metadata (chunks ! 1))))"
  by (simp add: Let_def optimize_chunks_semantically_def optimize_loop_Cons joins_def
      similarity_threshold_def upt_rec optimized_chunk_def sample_dict_def)

theorem C3_consolidated_chunk_fields_witness:
  "(let chunks = [sample_dict ''d_chunk_0'' ''a'' [''court''],
                  sample_dict ''d_chunk_1'' ''b'' [''judge'']];
        out = optimize_chunks_semantically (\<lambda>i j. 1) chunks
    in length out = 1 \<and> c_content (out ! 0) = ''a b''
     \<and> c_metadata (out ! 0)
         = (c_metadata (chunks ! 0))\<lparr>m_merged_from := Some [''d_chunk_0'', ''d_chunk_1'']\<rparr>)
   \<and> (let chunks' = [sample_chunk ''d_chunk_0'' ''a'' [''court'', ''x''] 0.2,
                     sample_chunk ''d_chunk_1'' ''b'' [''judge'', ''x''] 0.5]
      in \<exists>c. merge_chunks_try (\<lambda>_. Inr [[1, 1], [1, 1]]) remdups chunks' () = Inr [c]
           \<and> content c = ''a b'' \<and> set (keywords c) = {''court'', ''x'', ''judge''}
           \<and> distinct (keywords c)
           \<and> importance_score c = 0.5 \<and> chunk_id c = ''d_chunk_0'')"
proof -
  define sim :: "nat \<Rightarrow> nat \<Rightarrow> real" where "sim = (\<lambda>i j. 1)"
  define chunks where "chunks = [sample_dict ''d_chunk_0'' ''a'' [''court''],
                  sample_dict ''d_chunk_1'' ''b'' [''judge'']]"
  define chunks' where "chunks' = [sample_chunk ''d_chunk_0'' ''a'' [''court'', ''x''] 0.2,
                     sample_chunk ''d_chunk_1'' ''b'' [''judge'', ''x''] 0.5]"
  define m :: "real list list" where "m = [[1, 1], [1, 1]]"
  define csim :: "unit \<Rightarrow> py_exception + real list list" where "csim = (\<lambda>_. Inr m)"
  have len: "length chunks = 2" "length chunks' = 2" by (simp_all add: chunks_def chunks'_def)
  have g: "anchor_groups sim 2 {} [0 ..< 2] = [[0, 1]]"
    by (simp add: sim_def anchor_groups_Cons joins_def similarity_threshold_def upt_rec)
  have g': "anchor_groups (\<lambda>i j. m ! i ! j) 2 {} [0 ..< 2] = [[0, 1]]"
    by (simp add: m_def anchor_groups_Cons joins_def similarity_threshold_def upt_rec)
  have cov: "covers m (length chunks')" by (simp add: covers_def m_def len)
  have cs: "csim () = Inr m" by (simp add: csim_def)
  obtain out where out: "merge_chunks_try csim remdups chunks' () = Inr out"
    using merge_chunks_try_covers [where csim = csim and emb = "()" and m = m and chunks = chunks'
        and sl = remdups] cs cov by blast
  note T = C3_consolidated_chunk_fields [OF set_order_remdups, of sim chunks csim "()" chunks',
      unfolded Let_def len g g']
  note t1 = T [THEN conjunct1, THEN conjunct1]
  note t2 = T [THEN conjunct1, THEN conjunct2, rule_format, of 0]
  note t3 = T [THEN conjunct2, rule_format, OF conjI [OF cs out], unfolded g']
  have a: "length (optimize_chunks_semantically sim chunks) = 1"
    using t1 by simp
  have b: "c_content (optimize_chunks_semantically sim chunks ! 0) = ''a b''"
    "c_metadata (optimize_chunks_semantically sim chunks ! 0)
         = (c_metadata (chunks ! 0))\<lparr>m_merged_from := Some [''d_chunk_0'', ''d_chunk_1'']\<rparr>"
    using t2 by (simp_all add: chunks_def sample_dict_def)
  from t3 have l: "length out = 1" by simp
  then obtain c where c: "out = [c]" by (cases out) auto
  from t3 [THEN conjunct2, rule_format, of 0]
  have d: "content c = ''a b''" "set (keywords c) = {''court'', ''x'', ''judge''}"
    "distinct (keywords c)" "importance_score c = 0.5" "chunk_id c = ''d_chunk_0''"
    by (auto simp: c chunks'_def sample_chunk_def)
  have "\<exists>c. merge_chunks_try csim remdups chunks' () = Inr [c]
           \<and> content c = ''a b'' \<and> set (keywords c) = {''court'', ''x'', ''judge''}
           \<and> distinct (keywords c)
           \<and> importance_score c = 0.5 \<and> chunk_id c = ''d_chunk_0''"
    using out c d by blast
  then show ?thesis
    unfolding Let_def chunks_def [symmetric] chunks'_def [symmetric] sim_def [symmetric]
      m_def [symmetric] csim_def [symmetric]
    using a b by blast
qed

section \<open>Claim C10: a failed merge returns the input\<close>

text \<open>
  Claim C10. \<open>_merge_chunks\<close> never raises: its result is a chunk list whatever happens
  in the \<open>try\<close>. When the body of the \<open>try\<close> raises, the result is the input list
  \<open>chunks\<close>, unchanged; the body does raise whenever \<open>cosine_similarity\<close> raises on
  more than one chunk; and when the body returns, its result is the result.
\<close>

theorem C10_merge_failure_returns_input:
  "(\<forall>e. merge_chunks_try cosine_similarity list_of_set chunks embeddings = Inl e \<longrightarrow>
        merge_chunks cosine_similarity list_of_set chunks embeddings = chunks)
   \<and> (\<forall>e. 1 < length chunks \<and> cosine_similarity embeddings = Inl e \<longrightarrow>
        merge_chunks_try cosine_similarity list_of_set chunks embeddings = Inl e)
   \<and> (\<forall>out. merge_chunks_try cosine_similarity list_of_set chunks embeddings = Inr out \<longrightarrow>
        merge_chunks cosine_similarity list_of_set chunks embeddings = out)"
  by (simp add: merge_chunks_def merge_chunks_try_def)

theorem C10_merge_failure_returns_input_witness:
  "(let chunks = [sample_chunk ''d_chunk_0'' ''a'' [] 0, sample_chunk ''d_chunk_1'' ''b'' [] 0]
    in merge_chunks_try (\<lambda>_. Inl ValueError) remdups chunks () = Inl ValueError
     \<and> merge_chunks (\<lambda>_. Inl ValueError) remdups chunks () = chunks
     \<and> merge_chunks_try (\<lambda>_. Inr [[1]]) remdups chunks () = Inl IndexError
     \<and> merge_chunks (\<lambda>_. Inr [[1]]) remdups chunks () = chunks)"
proof -
  define chunks where
    "chunks = [sample_chunk ''d_chunk_0'' ''a'' [] 0, sample_chunk ''d_chunk_1'' ''b'' [] 0]"
  define fail :: "unit \<Rightarrow> py_exception + real list list" where "fail = (\<lambda>_. Inl ValueError)"
  define small :: "unit \<Rightarrow> py_exception + real list list" where "small = (\<lambda>_. Inr [[1]])"
  have len: "1 < length chunks" by (simp add: chunks_def)
  have f: "fail () = Inl ValueError" by (simp add: fail_def)
  note T = C10_merge_failure_returns_input [of fail remdups chunks "()"]
  from T [THEN conjunct2, THEN conjunct1, rule_format, OF conjI [OF len f]]
  have a: "merge_chunks_try fail remdups chunks () = Inl ValueError" .
  from T [THEN conjunct1, rule_format, OF a]
  have b: "merge_chunks fail remdups chunks () = chunks" .
  have c: "merge_chunks_try small remdups chunks () = Inl IndexError"
    by (simp add: merge_chunks_try_def small_def chunks_def upt_rec matrix_get_def)
  from C10_merge_failure_returns_input [of small remdups chunks "()", THEN conjunct1,
      rule_format, OF c]
  have d: "merge_chunks small remdups chunks () = chunks" .
  show ?thesis
    unfolding Let_def chunks_def [symmetric] fail_def [symmetric] small_def [symmetric]
    using a b c d by (intro conjI)
qed

section \<open>Claim C5: the query matcher\<close>

text \<open>
  The matcher ranks the chunks that have an embedding (the others are left out,
  without error) by their similarity to the query, descending, ties in the original
  chunk order: the ranking is a permutation of the candidates, sorted by descending
  score, and among equal scores it keeps the input order. The result is the slice
  \<open>[:top_k]\<close> of the ranking: its first \<open>top_k\<close> elements for \<open>top_k \<ge> 0\<close> (none for
  \<open>top_k = 0\<close>, all when \<open>top_k\<close> is at least the number of candidates), and the
  ranking without its last \<open>-top_k\<close> elements for \<open>top_k < 0\<close>.
\<close>

theorem search_similar_chunks_ranking:
  "(let candidates = filter has_embedding chunks;
        score = query_score encode cosine query;
        ranked = sort_key (\<lambda>c. - score c) candidates;
        result = search_similar_chunks encode cosine query chunks top_k
    in mset ranked = mset candidates
     \<and> sorted_wrt (\<lambda>a b. score a \<ge> score b) ranked
     \<and> (\<forall>k. filter (\<lambda>c. score c = k) ranked = filter (\<lambda>c. score c = k) candidates)
     \<and> (0 \<le> top_k \<longrightarrow> result = take (nat top_k) ranked \<and> length result \<le> nat top_k)
     \<and> (top_k = 0 \<longrightarrow> result = [])
     \<and> (int (length candidates) \<le> top_k \<longrightarrow> result = ranked)
     \<and> (top_k < 0 \<longrightarrow> result = take (length candidates - nat (- top_k)) ranked)
     \<and> list_all has_embedding result)"
proof -
  let ?cands = "filter has_embedding chunks"
  let ?score = "query_score encode cosine query"
  let ?ranked = "sort_key (\<lambda>c. - ?score c) ?cands"
  let ?res = "search_similar_chunks encode cosine query chunks top_k"
  have res: "?res = slice_to top_k ?ranked" by (rule search_similar_chunks_ranked)
  have 1: "mset ?ranked = mset ?cands" by simp
  have "sorted (map (\<lambda>c. - ?score c) ?ranked)" by (rule sorted_sort_key)
  then have 2: "sorted_wrt (\<lambda>a b. ?score a \<ge> ?score b) ?ranked"
    by (simp add: sorted_map)
  have 3: "filter (\<lambda>c. ?score c = k) ?ranked = filter (\<lambda>c. ?score c = k) ?cands" for k
    using sort_key_stable [of "\<lambda>c. - ?score c" "- k" ?cands] by simp
  have 4: "0 \<le> top_k \<Longrightarrow> ?res = take (nat top_k) ?ranked \<and> length ?res \<le> nat top_k"
    by (simp add: res slice_to_def)
  have 5: "top_k = 0 \<Longrightarrow> ?res = []" using res by (simp add: slice_to_def)
  have 6: "int (length ?cands) \<le> top_k \<Longrightarrow> ?res = ?ranked"
    by (simp add: res slice_to_def)
  have 7: "top_k < 0 \<Longrightarrow> ?res = take (length ?cands - nat (- top_k)) ?ranked"
  proof -
    assume neg: "top_k < 0"
    have "nat (max 0 (int (length ?cands) + top_k)) = length ?cands - nat (- top_k)"
      using neg by (auto simp: max_def)
    with neg show ?thesis by (simp add: res slice_to_def)
  qed
  have "set ?res \<subseteq> set ?ranked"
    unfolding res slice_to_def by (auto dest: in_set_takeD)
  then have 8: "list_all has_embedding ?res"
    by (auto simp: list_all_iff)
  from 1 2 3 4 5 6 7 8 show ?thesis
    unfolding Let_def by blast
qed

theorem search_similar_chunks_ranking_example:
  "(let encode = (\<lambda>q. [1, 0]);
        c0 = sample_embedded ''d_chunk_0'' (Some [0, 1]);
        c1 = sample_embedded ''d_chunk_1'' None;
        c2 = sample_embedded ''d_chunk_2'' (Some [1, 0]);
        c3 = sample_embedded ''d_chunk_3'' (Some [0, 1])
    in search_similar_chunks encode cosine_rows ''contract breach'' [c0, c1, c2, c3] 2 = [c2, c0]
     \<and> search_similar_chunks encode cosine_rows ''contract breach'' [c0, c1, c2, c3] 0 = []
     \<and> search_similar_chunks encode cosine_rows ''contract breach'' [c0, c1, c2, c3] 5
         = [c2, c0, c3])"
proof -
  define enc :: "string \<Rightarrow> real list" where "enc = (\<lambda>q. [1, 0])"
  define c0 where "c0 = sample_embedded ''d_chunk_0'' (Some [0, 1])"
  define c1 where "c1 = sample_embedded ''d_chunk_1'' None"
  define c2 where "c2 = sample_embedded ''d_chunk_2'' (Some [1, 0])"
  define c3 where "c3 = sample_embedded ''d_chunk_3'' (Some [0, 1])"
  have emb: "has_embedding c0" "\<not> has_embedding c1" "has_embedding c2" "has_embedding c3"
    by (simp_all add: has_embedding_def c0_def c1_def c2_def c3_def sample_embedded_def)
  have sc: "query_score enc cosine_rows q c0 = 0" "query_score enc cosine_rows q c2 = 1"
    "query_score enc cosine_rows q c3 = 0" for q
    by (simp_all add: query_score_def enc_def cosine_rows_def normalize_row_def row_norm_def
        dot_product_def embedding_of_def c0_def c2_def c3_def sample_embedded_def)
  have cands: "filter has_embedding [c0, c1, c2, c3] = [c0, c2, c3]"
    by (simp add: emb)
  have ranked: "sort_key (\<lambda>c. - query_score enc cosine_rows ''contract breach'' c) [c0, c2, c3]
      = [c2, c0, c3]"
    by (simp add: sc)
  note T = search_similar_chunks_ranking [of "[c0, c1, c2, c3]" enc cosine_rows
      "''contract breach''", unfolded Let_def cands ranked]
  have a: "search_similar_chunks enc cosine_rows ''contract breach'' [c0, c1, c2, c3] 2 = [c2, c0]"
    using T [of 2] by simp
  have b: "search_similar_chunks enc cosine_rows ''contract breach'' [c0, c1, c2, c3] 0 = []"
    using T [of 0] by simp
  have c: "search_similar_chunks enc cosine_rows ''contract breach'' [c0, c1, c2, c3] 5
      = [c2, c0, c3]"
    using T [of 5] by simp
  show ?thesis
    unfolding Let_def enc_def [symmetric] c0_def [symmetric]
      c1_def [symmetric] c2_def [symmetric] c3_def [symmetric]
    using a b c by (intro conjI)
qed

text \<open>
  Claim C5 says that \<open>search_similar_chunks\<close> returns at most \<open>top_k\<close> chunks and an
  empty sequence when \<open>top_k \<le> 0\<close>. The code returns \<open>similarities[:top_k]\<close>, under the
  comment "return top_k", and nothing guards the slice against a negative \<open>top_k\<close>.
  On two chunks with embeddings and \<open>top_k = -1\<close> it returns the first chunk of the
  ranking, one chunk where the claim has none.
\<close>

theorem C5_negative_top_k_returns_chunk:
  "search_similar_chunks (\<lambda>q. [1]) cosine_rows ''contract breach''
     [sample_embedded ''d_chunk_0'' (Some [1]), sample_embedded ''d_chunk_1'' (Some [1])] (- 1)
   = [sample_embedded ''d_chunk_0'' (Some [1])]"
  by (simp add: search_similar_chunks_def Let_def has_embedding_def embedding_of_def
      sample_embedded_def sample_dict_def slice_to_def cosine_rows_def normalize_row_def
      row_norm_def dot_product_def)

section \<open>Claim C8: sentiment\<close>

text \<open>
  Claim C8, as amended. When spaCy's pipeline returns for the text, \<open>_analyze_sentiment\<close>
  is \<open>'positive'\<close> exactly when more positive-lexicon words than negative-lexicon words
  are present in the lower-cased text, \<open>'negative'\<close> exactly when more negative ones are
  present, and \<open>'neutral'\<close> exactly when the two numbers are equal; when the pipeline
  raises, it is \<open>'neutral'\<close>. The number for a lexicon is the number of its words that
  occur in the lower-cased text as a substring: a word counts once however often it
  occurs, so the number is at most the number of occurrences.
\<close>

theorem C8_sentiment_by_words_present:
  "(\<forall>doc. nlp text = Inr doc \<longrightarrow>
       (analyze_sentiment nlp text = ''positive''
          \<longleftrightarrow> words_present positive_words text > words_present negative_words text)
     \<and> (analyze_sentiment nlp text = ''negative''
          \<longleftrightarrow> words_present negative_words text > words_present positive_words text)
     \<and> (analyze_sentiment nlp text = ''neutral''
          \<longleftrightarrow> words_present positive_words text = words_present negative_words text))
   \<and> (\<forall>e. nlp text = Inl e \<longrightarrow> analyze_sentiment nlp text = ''neutral'')
   \<and> words_present positive_words text
       = card {w \<in> set positive_words. \<exists>pre post. lower text = pre @ w @ post}
   \<and> words_present negative_words text
       = card {w \<in> set negative_words. \<exists>pre post. lower text = pre @ w @ post}
   \<and> words_present positive_words text \<le> spec_occurrence_count positive_words text
   \<and> words_present negative_words text \<le> spec_occurrence_count negative_words text"
proof -
  have "distinct positive_words" "distinct negative_words"
    by (simp_all add: positive_words_def negative_words_def)
  then have c: "words_present positive_words text
       = card {w \<in> set positive_words. \<exists>pre post. lower text = pre @ w @ post}"
    "words_present negative_words text
       = card {w \<in> set negative_words. \<exists>pre post. lower text = pre @ w @ post}"
    by (simp_all only: words_present_card)
  have s: "(\<forall>doc. nlp text = Inr doc \<longrightarrow>
       (analyze_sentiment nlp text = ''positive''
          \<longleftrightarrow> words_present positive_words text > words_present negative_words text)
     \<and> (analyze_sentiment nlp text = ''negative''
          \<longleftrightarrow> words_present negative_words text > words_present positive_words text)
     \<and> (analyze_sentiment nlp text = ''neutral''
          \<longleftrightarrow> words_present positive_words text = words_present negative_words text))"
    by (auto simp: analyze_sentiment_def Let_def)
  have e: "\<forall>e. nlp text = Inl e \<longrightarrow> analyze_sentiment nlp text = ''neutral''"
    by (simp add: analyze_sentiment_def)
  from s e c words_present_le_occurrences [of positive_words "text"]
    words_present_le_occurrences [of negative_words "text"]
  show ?thesis by (intro conjI)
qed

theorem C8_occurrences_counterexample:
  "analyze_sentiment (\<lambda>t. Inr ()) ''Good terms, good faith, bad timing.'' = ''neutral''
   \<and> spec_occurrence_count positive_words ''Good terms, good faith, bad timing.'' = 2
   \<and> spec_occurrence_count negative_words ''Good terms, good faith, bad timing.'' = 1"
  by (simp add: analyze_sentiment_def words_present_def spec_occurrence_count_def
      positive_words_def negative_words_def lower_def lower_char_def)

theorem C8_sentiment_by_words_present_witness:
  "analyze_sentiment (\<lambda>t. Inr ()) ''A favorable and beneficial ruling, despite adverse press.''
     = ''positive''
   \<and> words_present positive_words ''A favorable and beneficial ruling, despite adverse press.'' = 2
   \<and> words_present negative_words ''A favorable and beneficial ruling, despite adverse press.'' = 1
   \<and> analyze_sentiment (\<lambda>t. Inl ValueError :: py_exception + unit)
        ''A favorable and beneficial ruling, despite adverse press.'' = ''neutral''"
proof -
  let ?t = "''A favorable and beneficial ruling, despite adverse press.''"
  have p: "words_present positive_words ?t = 2"
    by (simp add: words_present_def positive_words_def lower_def lower_char_def)
  have n: "words_present negative_words ?t = 1"
    by (simp add: words_present_def negative_words_def lower_def lower_char_def)
  note T = C8_sentiment_by_words_present [of "\<lambda>t. Inr ()" ?t]
  from T [THEN conjunct1, rule_format, of "()", THEN conjunct1] p n
  have a: "analyze_sentiment (\<lambda>t. Inr ()) ?t = ''positive''" by simp
  note U = C8_sentiment_by_words_present [of "\<lambda>t. Inl ValueError :: py_exception + unit" ?t]
  from U [THEN conjunct2, THEN conjunct1, rule_format, of ValueError]
  have b: "analyze_sentiment (\<lambda>t. Inl ValueError :: py_exception + unit) ?t = ''neutral''"
    by simp
  from a p n b show ?thesis by (intro conjI)
qed

section \<open>Claim C2: a split seeds the next buffer with the overlap\<close>

text \<open>
  Claim C2, as amended, for a positive \<open>overlap_size\<close>. In \<open>create_chunks\<close>, when a
  sentence that is not blank meets a non-empty buffer and the two lengths together
  exceed \<open>max_chunk_size\<close>, the buffer is sealed as a chunk, whose text is the buffer
  stripped of surrounding whitespace, and the next buffer is the trailing
  \<open>overlap_size\<close> characters of the sealed buffer (all of it when it is shorter), a
  space, and the sentence. Consequently, for sentences without surrounding whitespace
  (as the split of the preprocessed text yields them), every chunk made by a split is
  followed by a chunk, and every chunk but the first begins with the trailing
  \<open>overlap_size\<close> characters of the chunk before it, less their leading whitespace.
  \<open>_create_intelligent_chunks\<close> of \<open>advanced_document_processor.py\<close> carries no overlap:
  after a split its buffer is the sentence alone.
\<close>

theorem C2_split_seeds_overlap:
  assumes "0 < overlap_size"
  shows
  "(strip sentence \<noteq> [] \<and> cs_current_chunk st \<noteq> []
      \<and> int (length (cs_current_chunk st)) + int (length sentence) > max_chunk_size \<longrightarrow>
      chunk_step max_chunk_size overlap_size st sentence =
        \<lparr>cs_chunks = cs_chunks st @
           [make_chunk (cs_current_chunk st) (cs_start_pos st) (cs_chunk_index st)],
         cs_current_chunk = trailing (nat overlap_size) (cs_current_chunk st) @ '' '' @ sentence,
         cs_chunk_index = cs_chunk_index st + 1,
         cs_start_pos = cs_start_pos st + 1\<rparr>
      \<and> chunkText (make_chunk (cs_current_chunk st) (cs_start_pos st) (cs_chunk_index st))
          = strip (cs_current_chunk st))
   \<and> ((\<forall>s \<in> set sentences. strip s = s) \<longrightarrow>
        (let st' = foldl (chunk_step max_chunk_size overlap_size) chunker_init sentences;
             out = create_chunks max_chunk_size overlap_size sentences
         in (cs_chunks st' \<noteq> [] \<longrightarrow>
               length out = Suc (length (cs_chunks st'))
               \<and> take (length (cs_chunks st')) out = cs_chunks st')
          \<and> (\<forall>k. Suc k < length out \<longrightarrow>
                prefix (lstrip (trailing (nat overlap_size) (chunkText (out ! k))))
                  (chunkText (out ! Suc k)))))
   \<and> (int (length (as_current_chunk ast)) + int (length sentence') > 1000
        \<and> as_current_chunk ast \<noteq> [] \<longrightarrow>
        as_current_chunk (assemble_step did ast sentence') = sentence')"
proof -
  have 1: "chunk_step max_chunk_size overlap_size st sentence =
        \<lparr>cs_chunks = cs_chunks st @
           [make_chunk (cs_current_chunk st) (cs_start_pos st) (cs_chunk_index st)],
         cs_current_chunk = trailing (nat overlap_size) (cs_current_chunk st) @ '' '' @ sentence,
         cs_chunk_index = cs_chunk_index st + 1,
         cs_start_pos = cs_start_pos st + 1\<rparr>
      \<and> chunkText (make_chunk (cs_current_chunk st) (cs_start_pos st) (cs_chunk_index st))
          = strip (cs_current_chunk st)"
    if "strip sentence \<noteq> []" "cs_current_chunk st \<noteq> []"
      "int (length (cs_current_chunk st)) + int (length sentence) > max_chunk_size"
    using that by (simp add: chunk_step_def Let_def overlap_text_of_trailing [OF assms])
  have 2: "(let st' = foldl (chunk_step max_chunk_size overlap_size) chunker_init sentences;
             out = create_chunks max_chunk_size overlap_size sentences
         in (cs_chunks st' \<noteq> [] \<longrightarrow>
               length out = Suc (length (cs_chunks st'))
               \<and> take (length (cs_chunks st')) out = cs_chunks st')
          \<and> (\<forall>k. Suc k < length out \<longrightarrow>
                prefix (lstrip (trailing (nat overlap_size) (chunkText (out ! k))))
                  (chunkText (out ! Suc k))))"
    if s: "\<forall>s \<in> set sentences. strip s = s"
    unfolding Let_def
    using create_chunks_overlap [OF assms s, of max_chunk_size]
      create_chunks_followed [OF assms s, of max_chunk_size]
    by auto
  have 3: "as_current_chunk (assemble_step did ast sentence') = sentence'"
    if "int (length (as_current_chunk ast)) + int (length sentence') > 1000"
      "as_current_chunk ast \<noteq> []"
    using that by (simp add: assemble_step_def Let_def)
  from 1 2 3 show ?thesis by blast
qed

theorem C2_overlap_counterexample:
  "(let out = create_chunks 5 4 [''ab.'', ''cd.'', ''ef.'']
    in map chunkText out = [''ab.'', ''ab. cd.'', ''cd. ef.'']
     \<and> trailing 4 (chunkText (out ! 1)) = '' cd.''
     \<and> \<not> prefix (trailing 4 (chunkText (out ! 1))) (chunkText (out ! 2)))
   \<and> (let out = create_intelligent_chunks
                  (\<lambda>t. Inr [replicate 600 CHR ''a'', replicate 600 CHR ''b'']) [] ''doc''
      in map content out = [replicate 600 CHR ''a'', replicate 600 CHR ''b'']
       \<and> \<not> prefix (trailing 1 (content (out ! 0))) (content (out ! 1)))"
  by code_simp

theorem C2_split_seeds_overlap_witness:
  "map chunkText (create_chunks 5 4 [''ab.'', ''cd.'', ''ef.'']) = [''ab.'', ''ab. cd.'', ''cd. ef.'']
   \<and> lstrip (trailing 4 ''ab. cd.'') = ''cd.''
   \<and> prefix (lstrip (trailing 4 ''ab. cd.'')) ''cd. ef.''
   \<and> cs_current_chunk (chunk_step 5 4
         \<lparr>cs_chunks = [], cs_current_chunk = ''ab.'', cs_chunk_index = 0, cs_start_pos = 0\<rparr>
         ''cd.'') = ''ab. cd.''"
proof -
  define sentences where "sentences = [''ab.'', ''cd.'', ''ef.'']"
  define st where
    "st = \<lparr>cs_chunks = [], cs_current_chunk = ''ab.'', cs_chunk_index = 0, cs_start_pos = 0\<rparr>"
  have pos: "0 < (4 :: int)" by simp
  have s: "\<forall>s \<in> set sentences. strip s = s"
    unfolding sentences_def by code_simp
  have h: "strip ''cd.'' \<noteq> [] \<and> cs_current_chunk st \<noteq> []
      \<and> int (length (cs_current_chunk st)) + int (length ''cd.'') > 5"
    unfolding st_def by code_simp
  have o: "map chunkText (create_chunks 5 4 sentences) = [''ab.'', ''ab. cd.'', ''cd. ef.'']"
    unfolding sentences_def by code_simp
  have "length (map chunkText (create_chunks 5 4 sentences)) = 3"
    unfolding o by simp
  then have len: "length (create_chunks 5 4 sentences) = 3" by simp
  have "map chunkText (create_chunks 5 4 sentences) ! 1 = ''ab. cd.''"
    "map chunkText (create_chunks 5 4 sentences) ! Suc 1 = ''cd. ef.''"
    unfolding o by simp_all
  with len have o1: "chunkText (create_chunks 5 4 sentences ! 1) = ''ab. cd.''"
    and o2: "chunkText (create_chunks 5 4 sentences ! Suc 1) = ''cd. ef.''"
    by simp_all
  note T = C2_split_seeds_overlap [OF pos, of "''cd.''" st 5 sentences
      assembler_init "''x''" "''doc''"]
  from T [THEN conjunct1, THEN mp, OF h, THEN conjunct1]
  have a: "cs_current_chunk (chunk_step 5 4 st ''cd.'') = trailing (nat 4) (cs_current_chunk st) @ '' '' @ ''cd.''"
    by simp
  have a': "trailing (nat 4) (cs_current_chunk st) @ '' '' @ ''cd.'' = ''ab. cd.''"
    unfolding st_def by code_simp
  from T [THEN conjunct2, THEN conjunct1, THEN mp, OF s, unfolded Let_def, THEN conjunct2,
      rule_format, of 1] len
  have "prefix (lstrip (trailing (nat 4) (chunkText (create_chunks 5 4 sentences ! 1))))
          (chunkText (create_chunks 5 4 sentences ! Suc 1))"
    by simp
  then have b: "prefix (lstrip (trailing 4 ''ab. cd.'')) ''cd. ef.''"
    unfolding o1 o2 by simp
  have c: "lstrip (trailing 4 ''ab. cd.'') = ''cd.''" by code_simp
  show ?thesis
    unfolding sentences_def [symmetric] st_def [symmetric]
    using o c b a [unfolded a'] by (intro conjI)
qed

section \<open>Claim C7: a blank document is a failure record\<close>

text \<open>
  Claim C7, as amended. For a document whose text is empty or all whitespace, each
  \<open>process_document\<close> returns a failure record without chunks:
  \<open>advanced-document-processor.py\<close>, run as the script, a \<open>ProcessingResult\<close> with
  \<open>chunks = []\<close>, \<open>success = False\<close> and the message "No content extracted from
  document" (and, when the extraction itself raises, the same with the text of the
  exception); \<open>python-document-processor.py\<close>, for a request whose \<open>text\<close> is such a
  string or is absent, a dictionary with the entry \<open>error\<close> "No text content
  provided", \<open>chunks = []\<close> and \<open>chunk_count = 0\<close>, which has no \<open>success\<close> entry.
\<close>

theorem C7_blank_document_fails:
  assumes "\<forall>c \<in> set text. isspace c"
  shows
  "(extract_content file_path = Inr (text, md) \<longrightarrow>
      (\<exists>r. process_document_adv True extract_content make_chunks file_path did = Inr r
         \<and> pr_chunks r = [] \<and> \<not> pr_success r
         \<and> pr_error_message r = Some ''No content extracted from document''))
   \<and> (\<forall>e. extract_content file_path = Inl e \<longrightarrow>
      (\<exists>r. process_document_adv True extract_content make_chunks file_path did = Inr r
         \<and> pr_chunks r = [] \<and> \<not> pr_success r \<and> pr_error_message r = Some e))
   \<and> (map_of input_data ''text'' = Some (JStr text)
        \<or> (map_of input_data ''text'' = None \<and> text = []) \<longrightarrow>
      (let r = process_document_py process_text input_data
       in map_of r ''error'' = Some (JStr ''No text content provided'')
        \<and> map_of r ''chunks'' = Some (JChunks [])
        \<and> map_of r ''chunk_count'' = Some (JInt 0)
        \<and> map_of r ''success'' = None))"
proof -
  from assms have b: "strip text = []" by (simp add: strip_blank_iff)
  have 1: "\<exists>r. process_document_adv True extract_content make_chunks file_path did = Inr r
         \<and> pr_chunks r = [] \<and> \<not> pr_success r
         \<and> pr_error_message r = Some ''No content extracted from document''"
    if "extract_content file_path = Inr (text, md)"
    using that b by (simp add: process_document_adv_def Let_def)
  have 2: "\<exists>r. process_document_adv True extract_content make_chunks file_path did = Inr r
         \<and> pr_chunks r = [] \<and> \<not> pr_success r \<and> pr_error_message r = Some e"
    if "extract_content file_path = Inl e" for e
    using that by (simp add: process_document_adv_def Let_def)
  have g: "dict_get input_data ''text'' (JStr []) = JStr text"
    if "map_of input_data ''text'' = Some (JStr text)
        \<or> (map_of input_data ''text'' = None \<and> text = [])"
    using that by (auto simp: dict_get_def)
  have 3: "(let r = process_document_py process_text input_data
       in map_of r ''error'' = Some (JStr ''No text content provided'')
        \<and> map_of r ''chunks'' = Some (JChunks [])
        \<and> map_of r ''chunk_count'' = Some (JInt 0)
        \<and> map_of r ''success'' = None)"
    if "map_of input_data ''text'' = Some (JStr text)
        \<or> (map_of input_data ''text'' = None \<and> text = [])"
    using b by (simp add: process_document_py_def g [OF that] Let_def error_response_def)
  from 1 2 3 show ?thesis by blast
qed

theorem C7_success_field_counterexample:
  "(let r = process_document_py (\<lambda>d. Inr []) [(''text'', JStr ''   '')]
    in r = [(''error'', JStr ''No text content provided''), (''chunks'', JChunks []),
            (''word_document'', JStr []), (''chunk_count'', JInt 0), (''total_tokens'', JInt 0)]
     \<and> map_of r ''success'' = None)"
  by (simp add: process_document_py_def dict_get_def strip_def lstrip_def rstrip_def isspace_def
      error_response_def Let_def)

theorem C7_blank_document_fails_witness:
  "(\<exists>r. process_document_adv True
            (\<lambda>p. Inr ([CHR 0x20, CHR 0xA0, CHR 0x0A], [(''extraction_method'', ''plain_text'')]))
            (\<lambda>t d m. Inr []) ''a.txt'' ''doc'' = Inr r
       \<and> pr_chunks r = [] \<and> \<not> pr_success r
       \<and> pr_error_message r = Some ''No content extracted from document'')
   \<and> (let r = process_document_py (\<lambda>d. Inr []) [(''title'', JStr ''T'')]
      in map_of r ''error'' = Some (JStr ''No text content provided'')
       \<and> map_of r ''chunks'' = Some (JChunks []))
   \<and> (let r = process_document_py (\<lambda>d. Inr [])
                [(''text'', JStr [CHR 0x20, CHR 0xA0, CHR 0x0A])]
      in map_of r ''error'' = Some (JStr ''No text content provided'')
       \<and> map_of r ''chunks'' = Some (JChunks []))"
proof -
  define blank where "blank = [CHR 0x20, CHR 0xA0, CHR 0x0A]"
  have h1: "\<forall>c \<in> set blank. isspace c" by (simp add: blank_def isspace_def)
  have h2: "\<forall>c \<in> set []. isspace c" by simp
  define ec :: "string \<Rightarrow> string + string \<times> (string \<times> string) list" where
    "ec = (\<lambda>p. Inr (blank, [(''extraction_method'', ''plain_text'')]))"
  define mk :: "string \<Rightarrow> string \<Rightarrow> (string \<times> string) list \<Rightarrow> string + chunk_dict list" where
    "mk = (\<lambda>t d m. Inr [])"
  define pt :: "(string \<times> json_value) list \<Rightarrow> string + (string \<times> json_value) list" where
    "pt = (\<lambda>d. Inr [])"
  define inp where "inp = [(''title'', JStr ''T'')]"
  define inq where "inq = [(''text'', JStr blank)]"
  have e: "ec ''a.txt'' = Inr (blank, [(''extraction_method'', ''plain_text'')])"
    by (simp add: ec_def)
  have g: "map_of inp ''text'' = Some (JStr []) \<or> (map_of inp ''text'' = None \<and> [] = ([] :: string))"
    by (simp add: inp_def)
  have k: "map_of inq ''text'' = Some (JStr blank) \<or> (map_of inq ''text'' = None \<and> blank = [])"
    by (simp add: inq_def)
  note A = C7_blank_document_fails [OF h1, of ec "''a.txt''" _ mk "''doc''", THEN conjunct1,
      THEN mp, OF e]
  note B = C7_blank_document_fails [OF h2, of _ _ _ _ _ inp pt,
      THEN conjunct2, THEN conjunct2, THEN mp, OF g]
  note C = C7_blank_document_fails [OF h1, of _ _ _ _ _ inq pt,
      THEN conjunct2, THEN conjunct2, THEN mp, OF k]
  from A B C show ?thesis
    unfolding Let_def blank_def [symmetric] ec_def [symmetric] mk_def [symmetric]
      pt_def [symmetric] inp_def [symmetric] inq_def [symmetric]
    by blast
qed

section \<open>Claim C6: chunk offsets\<close>


section \<open>Claim C9: two runs on the same input\<close>

text \<open>
  Claim C9, as amended. \<open>list(set(xs))\<close> lists the elements of \<open>xs\<close> once each, in the
  iteration order of the interpreter's set, which for strings depends on the hash
  seed of the process. Two runs of assembly plus annotation on the same document,
  with the same configuration and the same deterministic capabilities, produce the
  same chunk list when the sets iterate in the same order. When they do not, the two
  runs of \<open>advanced_document_processor.py\<close> still agree on the number and order of the
  chunks and on every field but \<open>legal_terms\<close> (content, offsets, entities, keywords,
  references, importance score, sentiment), and the \<open>legal_terms\<close> agree as sets and
  in length; the two runs of \<open>advanced-document-processor.py\<close> agree on every entry
  but \<open>keywords\<close>, of which they have the same number.
\<close>

theorem C9_runs_agree_up_to_set_order:
  assumes "set_order (cap_list_of_set caps)" and "set_order list_of_set'"
  shows
  "(let r1 = annotated_chunks caps text did;
        r2 = annotated_chunks (caps\<lparr>cap_list_of_set := list_of_set'\<rparr>) text did
    in map (\<lambda>c. c\<lparr>legal_terms := []\<rparr>) r1 = map (\<lambda>c. c\<lparr>legal_terms := []\<rparr>) r2
     \<and> map (\<lambda>c. set (legal_terms c)) r1 = map (\<lambda>c. set (legal_terms c)) r2
     \<and> map (\<lambda>c. length (legal_terms c)) r1 = map (\<lambda>c. length (legal_terms c)) r2
     \<and> (cap_list_of_set caps = list_of_set' \<longrightarrow> r1 = r2))
   \<and> (let h1 = enhanced_chunks nlp encode (cap_list_of_set caps) text did basic_chunks;
          h2 = enhanced_chunks nlp encode list_of_set' text did basic_chunks
      in map (\<lambda>c. c\<lparr>c_metadata := (c_metadata c)\<lparr>m_keywords := []\<rparr>\<rparr>) h1
           = map (\<lambda>c. c\<lparr>c_metadata := (c_metadata c)\<lparr>m_keywords := []\<rparr>\<rparr>) h2
       \<and> map (\<lambda>c. length (m_keywords (c_metadata c))) h1
           = map (\<lambda>c. length (m_keywords (c_metadata c))) h2
       \<and> (cap_list_of_set caps = list_of_set' \<longrightarrow> h1 = h2))"
proof -
  let ?caps' = "caps\<lparr>cap_list_of_set := list_of_set'\<rparr>"
  have split: "cap_split_into_sentences ?caps' = cap_split_into_sentences caps" by simp
  note A = annotate_set_order [OF assms]
  have 1: "(let r1 = annotated_chunks caps text did;
        r2 = annotated_chunks ?caps' text did
    in map (\<lambda>c. c\<lparr>legal_terms := []\<rparr>) r1 = map (\<lambda>c. c\<lparr>legal_terms := []\<rparr>) r2
     \<and> map (\<lambda>c. set (legal_terms c)) r1 = map (\<lambda>c. set (legal_terms c)) r2
     \<and> map (\<lambda>c. length (legal_terms c)) r1 = map (\<lambda>c. length (legal_terms c)) r2
     \<and> (cap_list_of_set caps = list_of_set' \<longrightarrow> r1 = r2))"
    unfolding Let_def annotated_chunks_def split
    by (auto simp: A o_def)
  note E = enhance_set_order [OF assms]
  have 2: "(let h1 = enhanced_chunks nlp encode (cap_list_of_set caps) text did basic_chunks;
          h2 = enhanced_chunks nlp encode list_of_set' text did basic_chunks
      in map (\<lambda>c. c\<lparr>c_metadata := (c_metadata c)\<lparr>m_keywords := []\<rparr>\<rparr>) h1
           = map (\<lambda>c. c\<lparr>c_metadata := (c_metadata c)\<lparr>m_keywords := []\<rparr>\<rparr>) h2
       \<and> map (\<lambda>c. length (m_keywords (c_metadata c))) h1
           = map (\<lambda>c. length (m_keywords (c_metadata c))) h2
       \<and> (cap_list_of_set caps = list_of_set' \<longrightarrow> h1 = h2))"
    unfolding Let_def enhanced_chunks_def
    by (auto simp: E o_def split_def)
  from 1 2 show ?thesis by (rule conjI)
qed

theorem C9_set_order_counterexample:
  "set_order remdups \<and> set_order (rev \<circ> remdups)
   \<and> map legal_terms (annotated_chunks (sample_caps [''court'', ''judge'', ''court''] remdups)
         ''The court heard the judge.'' ''doc'') = [[''judge'', ''court'']]
   \<and> map legal_terms (annotated_chunks (sample_caps [''court'', ''judge'', ''court''] (rev \<circ> remdups))
         ''The court heard the judge.'' ''doc'') = [[''court'', ''judge'']]
   \<and> annotated_chunks (sample_caps [''court'', ''judge'', ''court''] remdups)
         ''The court heard the judge.'' ''doc''
       \<noteq> annotated_chunks (sample_caps [''court'', ''judge'', ''court''] (rev \<circ> remdups))
         ''The court heard the judge.'' ''doc''
   \<and> (let nouns = [''act'', ''bar'', ''bench'', ''brief'', ''claim'', ''clause'', ''court'',
                     ''fee'', ''judge'', ''law'', ''writ''];
          k1 = map (\<lambda>c. m_keywords (c_metadata c))
                 (enhanced_chunks (\<lambda>t. sample_doc nouns) (\<lambda>t. [1]) remdups ''x'' ''doc'' [''x'']);
          k2 = map (\<lambda>c. m_keywords (c_metadata c))
                 (enhanced_chunks (\<lambda>t. sample_doc nouns) (\<lambda>t. [1]) (rev \<circ> remdups) ''x'' ''doc'' [''x''])
      in k1 = [[''act'', ''bar'', ''bench'', ''brief'', ''claim'', ''clause'', ''court'', ''fee'',
                ''judge'', ''law'']]
       \<and> k2 = [[''writ'', ''law'', ''judge'', ''fee'', ''court'', ''clause'', ''claim'', ''brief'',
                ''bench'', ''bar'']]
       \<and> map set k1 \<noteq> map set k2)"
proof -
  let ?c1 = "sample_caps [''court'', ''judge'', ''court''] remdups"
  let ?c2 = "sample_caps [''court'', ''judge'', ''court''] (rev \<circ> remdups)"
  let ?t = "''The court heard the judge.''"
  have l1: "map legal_terms (annotated_chunks ?c1 ?t ''doc'') = [[''judge'', ''court'']]"
    by code_simp
  have l2: "map legal_terms (annotated_chunks ?c2 ?t ''doc'') = [[''court'', ''judge'']]"
    by code_simp
  have ne: "annotated_chunks ?c1 ?t ''doc'' \<noteq> annotated_chunks ?c2 ?t ''doc''"
  proof
    assume "annotated_chunks ?c1 ?t ''doc'' = annotated_chunks ?c2 ?t ''doc''"
    then have "map legal_terms (annotated_chunks ?c1 ?t ''doc'')
        = map legal_terms (annotated_chunks ?c2 ?t ''doc'')" by simp
    then show False unfolding l1 l2 by simp
  qed
  have h: "(let nouns = [''act'', ''bar'', ''bench'', ''brief'', ''claim'', ''clause'', ''court'',
                     ''fee'', ''judge'', ''law'', ''writ''];
          k1 = map (\<lambda>c. m_keywords (c_metadata c))
                 (enhanced_chunks (\<lambda>t. sample_doc nouns) (\<lambda>t. [1]) remdups ''x'' ''doc'' [''x'']);
          k2 = map (\<lambda>c. m_keywords (c_metadata c))
                 (enhanced_chunks (\<lambda>t. sample_doc nouns) (\<lambda>t. [1]) (rev \<circ> remdups) ''x'' ''doc'' [''x''])
      in k1 = [[''act'', ''bar'', ''bench'', ''brief'', ''claim'', ''clause'', ''court'', ''fee'',
                ''judge'', ''law'']]
       \<and> k2 = [[''writ'', ''law'', ''judge'', ''fee'', ''court'', ''clause'', ''claim'', ''brief'',
                ''bench'', ''bar'']]
       \<and> map set k1 \<noteq> map set k2)"
    by code_simp
  from set_order_remdups set_order_rev_remdups l1 l2 ne h show ?thesis by (intro conjI)
qed

theorem C9_runs_agree_up_to_set_order_witness:
  "set_order remdups \<and> set_order (rev \<circ> remdups)
   \<and> (let r1 = annotated_chunks (sample_caps [''court'', ''judge'', ''court''] remdups)
                 ''The court heard the judge.'' ''doc'';
          r2 = annotated_chunks (sample_caps [''court'', ''judge'', ''court''] (rev \<circ> remdups))
                 ''The court heard the judge.'' ''doc''
      in map (\<lambda>c. c\<lparr>legal_terms := []\<rparr>) r1 = map (\<lambda>c. c\<lparr>legal_terms := []\<rparr>) r2
       \<and> map (\<lambda>c. set (legal_terms c)) r1 = map (\<lambda>c. set (legal_terms c)) r2
       \<and> map (\<lambda>c. length (legal_terms c)) r1 = map (\<lambda>c. length (legal_terms c)) r2)"
proof -
  let ?c1 = "sample_caps [''court'', ''judge'', ''court''] remdups"
  have so: "set_order (cap_list_of_set ?c1)"
    using set_order_remdups by (simp add: sample_caps_def)
  have c2: "?c1\<lparr>cap_list_of_set := rev \<circ> remdups\<rparr>
      = sample_caps [''court'', ''judge'', ''court''] (rev \<circ> remdups)"
    by (simp add: sample_caps_def)
  note T = C9_runs_agree_up_to_set_order [OF so set_order_rev_remdups,
      of "''The court heard the judge.''" "''doc''" "\<lambda>t. sample_doc []" "\<lambda>t. [1]" "[]",
      THEN conjunct1, unfolded Let_def c2]
  from T set_order_remdups set_order_rev_remdups show ?thesis
    unfolding Let_def by blast
qed

end
